theory Spec2Isabelle
  imports Complex_Main
begin

section \<open>AutoGrain: the grain-size analysis of \<open>AutoGrain.py\<close>\<close>

text \<open>
  The model covers the two computations of \<open>GrainAnalyzerApp\<close> that are not user
  interface: \<open>_finalize_scale_measurement\<close> (the two-click scale calibration) and
  \<open>analyze_grains\<close> with \<open>calculate_astm\<close> (the circular intercept sampling and the
  metric chain).

  Conventions of the embedding.
  \<^item> Python \<open>int\<close> is \<open>int\<close> or \<open>nat\<close> (image dimensions and counts are never negative).
  \<^item> A binary64 value is the \<open>real\<close> it denotes, and \<open>fl\<close> rounds a real to binary64
    (to nearest, ties to even, with the subnormal range; overflow to \<open>inf\<close> is outside the
    model). The basic operations of binary64 and \<open>math.sqrt\<close> are correctly rounded, so
    their results are \<open>fl\<close> of the exact results. \<open>math.log10\<close> and the float power come
    from the platform's C library, which promises no particular rounding.
  \<^item> The calibration uses only correctly rounded operations and is modelled bit-exactly.
    So are the two places where a float is truncated to an integer,
    \<open>int(min_dim * 0.35)\<close> and \<open>int(w * 0.1)\<close>.
  \<^item> The metric chain of \<open>analyze_grains\<close> has two readings of the same lines. In the
    exact reading \<open>/\<close>, \<open>**\<close>, \<open>math.log10\<close> and \<open>math.pi\<close> are the real operations;
    it carries the claims about values, which binary64 meets up to rounding. The exceptions
    of Python's float operations are kept in it (division by zero, zero to a negative power,
    logarithm of a non-positive number), and so is the underflow to zero of the quotient
    whose logarithm is taken. In the binary64 reading every operation is rounded and the two
    library functions are parameters; it carries the claims about order, where rounding
    decides.
  \<^item> OpenCV is an external library. What the sampling loop needs from it is the number
    of external contours on the ring of one circle intersected with the boundary mask;
    that number is a field of the image, a function of the circle.
  \<^item> \<open>random.randint\<close> is an explicit random source: the draws of iteration \<open>i\<close>.
  \<^item> Every early \<open>return\<close> behind a message box and every exception is a value of
    \<open>error\<close>.
\<close>

subsection \<open>Errors and float operations\<close>

datatype error =
    NoImageLoaded
  | InvalidPixelScale
  | NoBoundariesFound
  | KeyError string
  | IndexError
  | ZeroDivisionError
  | ValueError
  | TypeError

text \<open>\<open>a / b\<close> on floats raises \<open>ZeroDivisionError\<close> when \<open>b\<close> is zero.\<close>

definition float_div :: "real \<Rightarrow> real \<Rightarrow> error + real" where
  "float_div a b = (if b = 0 then Inl ZeroDivisionError else Inr (a / b))"

text \<open>
  \<open>x ** y\<close> on floats. Zero to a negative power raises \<open>ZeroDivisionError\<close>. A negative
  base with a fractional exponent gives a complex number in Python 3; the only use of the
  result in the source is \<open>int(yield_strength)\<close> in the report, which raises \<open>TypeError\<close>
  on a complex number, so the model reports \<open>TypeError\<close> at the power.
\<close>

definition float_pow :: "real \<Rightarrow> real \<Rightarrow> error + real" where
  "float_pow x y =
     (if x = 0 then (if y < 0 then Inl ZeroDivisionError else if y = 0 then Inr 1 else Inr 0)
      else if x < 0 then
        (if y \<in> \<int> then Inr ((if even \<lfloor>y\<rfloor> then 1 else - 1) * (- x) powr y) else Inl TypeError)
      else Inr (x powr y))"

text \<open>\<open>math.log10\<close> raises \<open>ValueError\<close> (math domain error) outside the positive reals.\<close>

definition float_log10 :: "real \<Rightarrow> error + real" where
  "float_log10 x = (if x \<le> 0 then Inl ValueError else Inr (log 10 x))"

subsection \<open>Rounding to binary64\<close>

text \<open>The nearest integer, a tie going to the even one.\<close>

definition round_half_even :: "real \<Rightarrow> int" where
  "round_half_even y =
     (let f = \<lfloor>y\<rfloor>; d = y - of_int f
      in if d < 1 / 2 then f else if 1 / 2 < d then f + 1
         else if even f then f else f + 1)"

text \<open>
  The spacing of binary64 around \<open>x\<close>: \<open>2^(e - 52)\<close> for \<open>2^e \<le> |x| < 2^(e + 1)\<close>, and
  \<open>2^-1074\<close> below \<open>2^-1022\<close>.
\<close>

definition ulp :: "real \<Rightarrow> real" where
  "ulp x = 2 powr of_int (max \<lfloor>log 2 \<bar>x\<bar>\<rfloor> (- 1022) - 52)"

definition fl :: "real \<Rightarrow> real" where
  "fl x = sgn x * (of_int (round_half_even (\<bar>x\<bar> / ulp x)) * ulp x)"

text \<open>Binary64 division: \<open>a / b\<close> raises on a zero divisor and is rounded otherwise.\<close>

definition fdiv :: "real \<Rightarrow> real \<Rightarrow> error + real" where
  "fdiv a b = (if b = 0 then Inl ZeroDivisionError else Inr (fl (a / b)))"

text \<open>
  \<open>round(x, ndigits)\<close> on a float: the binary64 value \<open>x\<close> is rounded to the nearest
  multiple of \<open>10^-ndigits\<close>, a tie going to the even multiple, and the result is the
  float nearest to that decimal.
\<close>

definition py_round :: "real \<Rightarrow> nat \<Rightarrow> real" where
  "py_round x ndigits = fl (of_int (round_half_even (x * 10 ^ ndigits)) / 10 ^ ndigits)"

subsection \<open>Truncating the product of an integer and a binary64 constant\<close>

text \<open>\<open>int.bit_length\<close>: the number of binary digits of a natural number.\<close>

fun bit_length :: "nat \<Rightarrow> nat" where
  "bit_length n = (if n = 0 then 0 else Suc (bit_length (n div 2)))"

declare bit_length.simps [simp del]

text \<open>
  Rounding a natural number to 53 significant bits, to nearest, ties to even: with
  \<open>s\<close> the number of bits beyond 53, the candidates are the two multiples of \<open>2^s\<close>
  around \<open>N\<close>.
\<close>

definition round53 :: "nat \<Rightarrow> nat" where
  "round53 N =
     (let s = bit_length N - 53; q = N div 2 ^ s; r = N mod 2 ^ s
      in if 2 * r < 2 ^ s then q * 2 ^ s
         else if 2 ^ s < 2 * r then (q + 1) * 2 ^ s
         else if even q then q * 2 ^ s else (q + 1) * 2 ^ s)"

text \<open>
  \<open>int(n * c)\<close> for an integer \<open>0 \<le> n < 2^53\<close> and the binary64 constant
  \<open>c = m / 2^e\<close>: the exact product is \<open>n * m / 2^e\<close>, the float product is that value
  rounded to 53 significant bits, and \<open>int\<close> drops the fraction.
\<close>

definition int_float_mul :: "nat \<Rightarrow> nat \<Rightarrow> nat \<Rightarrow> nat" where
  "int_float_mul n m e = round53 (n * m) div 2 ^ e"

text \<open>
  The literals \<open>0.35\<close> and \<open>0.1\<close> as binary64 values:
  \<open>0.35 = 3152519739159347 / 2^53\<close> (slightly below 35/100) and
  \<open>0.1 = 3602879701896397 / 2^55\<close> (slightly above 1/10).
\<close>

definition radius :: "nat \<Rightarrow> nat \<Rightarrow> nat" where
  "radius h w = (let min_dim = min h w in int_float_mul min_dim 3152519739159347 53)"

definition jitter :: "nat \<Rightarrow> nat" where
  "jitter n = int_float_mul n 3602879701896397 55"

subsection \<open>The Hall-Petch table\<close>

text \<open>\<open>materials_db\<close>: material name to \<open>(s0, k)\<close>, in MPa and MPa mm^0.5.\<close>

definition materials_db :: "string \<rightharpoonup> real \<times> real" where
  "materials_db = map_of
     [(''Steel (Low Carbon)'', (70, 23)),
      (''Aluminum (1100-O Pure)'', (15, 2.2)),
      (''Titanium (CP Grade 2)'', (170, 12)),
      (''Inconel 718 (Sol. Ann.)'', (350, 24)),
      (''Brass (70/30 Cartridge)'', (70, 12))]"

text \<open>\<open>self.materials_db[name]\<close> raises \<open>KeyError\<close> on a name that is not a key.\<close>

definition materials_db_getitem :: "string \<Rightarrow> error + real \<times> real" where
  "materials_db_getitem name =
     (case materials_db name of None \<Rightarrow> Inl (KeyError name) | Some mat_data \<Rightarrow> Inr mat_data)"

subsection \<open>Sequencing and \<open>try\<close>/\<open>except ZeroDivisionError\<close>\<close>

definition bind_err :: "error + 'a \<Rightarrow> ('a \<Rightarrow> error + 'b) \<Rightarrow> error + 'b" where
  "bind_err r f = (case r of Inl e \<Rightarrow> Inl e | Inr v \<Rightarrow> f v)"

definition except_zero_division :: "error + 'a \<Rightarrow> 'a \<Rightarrow> error + 'a" where
  "except_zero_division r fallback =
     (case r of Inr v \<Rightarrow> Inr v
      | Inl e \<Rightarrow> if e = ZeroDivisionError then Inr fallback else Inl e)"

subsection \<open>\<open>_finalize_scale_measurement\<close>\<close>

text \<open>
  The inputs are the clicked canvas points, \<open>self.current_scale_ratio\<close> and the answer of
  the \<open>askfloat\<close> dialog (\<open>None\<close> when it is cancelled). On success the outcome carries
  \<open>px_per_micron\<close>, which the message reports, and the value stored in
  \<open>pixel_scale_var\<close>, which is \<open>round(px_per_micron, 4)\<close>. Every operation is binary64:
  the integer under the root is exact (canvas coordinates are far below \<open>2^26\<close>), and the
  root and the two divisions are correctly rounded.
\<close>

datatype scale_outcome = ScaleSet real real | MeasurementCancelled

definition dist_canvas_px :: "int \<times> int \<Rightarrow> int \<times> int \<Rightarrow> real" where
  "dist_canvas_px p1 p2 = fl (sqrt (of_int ((fst p2 - fst p1)\<^sup>2 + (snd p2 - snd p1)\<^sup>2)))"

definition dist_original_px :: "int \<times> int \<Rightarrow> int \<times> int \<Rightarrow> real \<Rightarrow> error + real" where
  "dist_original_px p1 p2 current_scale_ratio =
     except_zero_division (fdiv (dist_canvas_px p1 p2) current_scale_ratio)
       (dist_canvas_px p1 p2)"

definition finalize_scale_measurement ::
  "(int \<times> int) list \<Rightarrow> real \<Rightarrow> real option \<Rightarrow> error + scale_outcome" where
  "finalize_scale_measurement scale_points current_scale_ratio length_microns =
     (case scale_points of
        p1 # p2 # _ \<Rightarrow>
          bind_err (dist_original_px p1 p2 current_scale_ratio) (\<lambda>dist.
            case length_microns of
              None \<Rightarrow> Inr MeasurementCancelled
            | Some l \<Rightarrow>
                if l = 0 then Inr MeasurementCancelled
                else bind_err (fdiv dist l) (\<lambda>px_per_micron.
                       Inr (ScaleSet px_per_micron (py_round px_per_micron 4))))
      | _ \<Rightarrow> Inl IndexError)"

subsection \<open>\<open>analyze_grains\<close>: the sampling loop\<close>

text \<open>A circle is \<open>(center_x, center_y, radius)\<close>.\<close>

type_synonym circle = "int \<times> int \<times> int"

text \<open>
  The loaded micrograph: its shape and, for the boundary mask that the OpenCV pipeline
  derives from it, the number of contours \<open>cv2.findContours\<close> returns on the ring of a
  circle.
\<close>

record micrograph =
  img_h :: nat
  img_w :: nat
  n_contours :: "circle \<Rightarrow> nat"

text \<open>The draws \<open>random.randint(-int(w*0.1), int(w*0.1))\<close> and the same for \<open>h\<close>.\<close>

definition randint_ok :: "nat \<Rightarrow> nat \<Rightarrow> int \<times> int \<Rightarrow> bool" where
  "randint_ok h w d =
     (- int (jitter w) \<le> fst d \<and> fst d \<le> int (jitter w) \<and>
      - int (jitter h) \<le> snd d \<and> snd d \<le> int (jitter h))"

definition out_of_bounds :: "nat \<Rightarrow> nat \<Rightarrow> circle \<Rightarrow> bool" where
  "out_of_bounds h w c =
     (case c of (center_x, center_y, r) \<Rightarrow>
        center_x - r < 0 \<or> center_x + r > int w \<or> center_y - r < 0 \<or> center_y + r > int h)"

definition jittered :: "nat \<Rightarrow> nat \<Rightarrow> int \<times> int \<Rightarrow> circle" where
  "jittered h w d = (int w div 2 + fst d, int h div 2 + snd d, int (radius h w))"

definition place_circle :: "nat \<Rightarrow> nat \<Rightarrow> int \<times> int \<Rightarrow> circle" where
  "place_circle h w d =
     (if out_of_bounds h w (jittered h w d) then (int w div 2, int h div 2, int (radius h w))
      else jittered h w d)"

record sampler =
  total_intercepts :: nat
  total_circumference_px :: real
  drawn :: "circle list"

definition sample_circle :: "micrograph \<Rightarrow> (nat \<Rightarrow> int \<times> int) \<Rightarrow> nat \<Rightarrow> sampler \<Rightarrow> sampler" where
  "sample_circle img rnd i st =
     (let c = place_circle (img_h img) (img_w img) (rnd i)
      in \<lparr>total_intercepts = total_intercepts st + n_contours img c,
          total_circumference_px =
            total_circumference_px st + 2 * pi * real (radius (img_h img) (img_w img)),
          drawn = drawn st @ [c]\<rparr>)"

definition num_circles :: nat where
  "num_circles = 5"

definition sample_circles :: "micrograph \<Rightarrow> (nat \<Rightarrow> int \<times> int) \<Rightarrow> sampler" where
  "sample_circles img rnd =
     fold (sample_circle img rnd) [0..<num_circles]
       \<lparr>total_intercepts = 0, total_circumference_px = 0, drawn = []\<rparr>"

subsection \<open>\<open>calculate_astm\<close> and the metric chain\<close>

text \<open>
  The exact reading. \<open>l_mm\<close> is the exact quotient, except that it is zero where the
  binary64 quotient is \<open>0.0\<close> (a mean of at most \<open>500 * 2^-1074\<close>): there \<open>math.log10\<close>
  raises.
\<close>

definition calculate_astm :: "real \<Rightarrow> error + real" where
  "calculate_astm mean_intercept_um =
     (if mean_intercept_um \<le> 0 then Inr 0
      else let l_mm = (if fl (mean_intercept_um / 1000) = 0 then 0
                       else mean_intercept_um / 1000)
           in bind_err (float_log10 l_mm) (\<lambda>lg. Inr (- 6.643856 * lg - 3.288)))"

text \<open>The \<open>try\<close> block of the Hall-Petch relation.\<close>

definition yield_strength :: "real \<Rightarrow> real \<Rightarrow> real \<Rightarrow> error + real" where
  "yield_strength s0 k d_mm =
     except_zero_division
       (bind_err (float_pow d_mm (- 0.5)) (\<lambda>p. Inr (s0 + k * p))) 0"

record report =
  r_intercepts :: nat
  r_mean_intercept_um :: real
  r_astm :: real
  r_d_mm :: real
  r_s0 :: real
  r_k :: real
  r_yield_strength :: real

text \<open>Steps 3 and 4 of \<open>analyze_grains\<close>, from the totals of the loop to the report.\<close>

definition calculations :: "nat \<Rightarrow> real \<Rightarrow> real \<Rightarrow> string \<Rightarrow> error + report" where
  "calculations n_total circumference_px scale_factor material =
     (if n_total = 0 then Inl NoBoundariesFound
      else
        bind_err (float_div circumference_px (real n_total)) (\<lambda>avg_intercept_px.
        bind_err (float_div avg_intercept_px scale_factor) (\<lambda>avg_grain_intercept_um.
        let d_mm = avg_grain_intercept_um / 1000 in
        bind_err (materials_db_getitem material) (\<lambda>(s0, k).
        bind_err (yield_strength s0 k d_mm) (\<lambda>ys.
        bind_err (calculate_astm avg_grain_intercept_um) (\<lambda>g.
          Inr \<lparr>r_intercepts = n_total, r_mean_intercept_um = avg_grain_intercept_um,
               r_astm = g, r_d_mm = d_mm, r_s0 = s0, r_k = k, r_yield_strength = ys\<rparr>))))))"

definition analyze_grains ::
  "micrograph option \<Rightarrow> real \<Rightarrow> string \<Rightarrow> (nat \<Rightarrow> int \<times> int) \<Rightarrow> error + report" where
  "analyze_grains original_image pixel_scale_var material_var rnd =
     (case original_image of
        None \<Rightarrow> Inl NoImageLoaded
      | Some img \<Rightarrow>
          if pixel_scale_var \<le> 0 then Inl InvalidPixelScale
          else let st = sample_circles img rnd
               in calculations (total_intercepts st) (total_circumference_px st)
                    pixel_scale_var material_var)"

subsection \<open>The binary64 reading of the metric chain\<close>

text \<open>
  The same lines with every operation rounded. The literals \<open>6.643856\<close> and \<open>3.288\<close> are
  the floats nearest to these decimals; \<open>1000.0\<close> and \<open>0.5\<close> are exact.
  \<open>libm_log10\<close> and \<open>libm_pow\<close> stand for the platform's \<open>log10\<close> and \<open>pow\<close> on their
  domains; the exceptions are Python's.
\<close>

text \<open>\<open>math.pi\<close>, the float \<open>3.141592653589793\<close>.\<close>

definition math_pi :: real where
  "math_pi = 884279719003555 / 2 ^ 48"

text \<open>
  \<open>total_circumference_px\<close> after the five additions of \<open>2 * math.pi * radius\<close>, which do
  not depend on the image.
\<close>

definition total_circumference_px_b64 :: "nat \<Rightarrow> real" where
  "total_circumference_px_b64 r =
     fold (\<lambda>i total. fl (total + fl (fl (2 * math_pi) * real r))) [0..<num_circles] 0"

definition avg_grain_intercept_um_b64 :: "nat \<Rightarrow> real \<Rightarrow> real \<Rightarrow> error + real" where
  "avg_grain_intercept_um_b64 n_total circumference_px scale_factor =
     bind_err (fdiv circumference_px (real n_total)) (\<lambda>avg_intercept_px.
       fdiv avg_intercept_px scale_factor)"

definition log10_b64 :: "(real \<Rightarrow> real) \<Rightarrow> real \<Rightarrow> error + real" where
  "log10_b64 libm_log10 x = (if x \<le> 0 then Inl ValueError else Inr (libm_log10 x))"

definition calculate_astm_b64 :: "(real \<Rightarrow> real) \<Rightarrow> real \<Rightarrow> error + real" where
  "calculate_astm_b64 libm_log10 mean_intercept_um =
     (if mean_intercept_um \<le> 0 then Inr 0
      else let l_mm = fl (mean_intercept_um / 1000)
           in bind_err (log10_b64 libm_log10 l_mm) (\<lambda>lg.
                Inr (fl (fl (- fl 6.643856 * lg) - fl 3.288))))"

definition pow_b64 :: "(real \<Rightarrow> real \<Rightarrow> real) \<Rightarrow> real \<Rightarrow> real \<Rightarrow> error + real" where
  "pow_b64 libm_pow x y =
     (if x = 0 then (if y < 0 then Inl ZeroDivisionError else if y = 0 then Inr 1 else Inr 0)
      else if x < 0 \<and> y \<notin> \<int> then Inl TypeError
      else Inr (libm_pow x y))"

definition yield_strength_b64 ::
  "(real \<Rightarrow> real \<Rightarrow> real) \<Rightarrow> real \<Rightarrow> real \<Rightarrow> real \<Rightarrow> error + real" where
  "yield_strength_b64 libm_pow s0 k d_mm =
     except_zero_division
       (bind_err (pow_b64 libm_pow d_mm (- 0.5)) (\<lambda>p. Inr (fl (s0 + fl (k * p))))) 0"

text \<open>A correctly rounded \<open>log10\<close> and \<open>pow\<close>, for concrete evaluation.\<close>

definition log10_cr :: "real \<Rightarrow> real" where
  "log10_cr x = fl (log 10 x)"

definition pow_cr :: "real \<Rightarrow> real \<Rightarrow> real" where
  "pow_cr x y = fl (x powr y)"

subsection \<open>Example inputs\<close>

text \<open>
  A 100 x 100 and a 340 x 340 micrograph on which every ring crosses seven boundaries, a
  100 x 100 one on which no ring crosses any, and a 2 x 2 image, whose radius is
  \<open>int(2 * 0.35) = 0\<close>.
\<close>

definition grains_100 :: micrograph where
  "grains_100 = \<lparr>img_h = 100, img_w = 100, n_contours = (\<lambda>c. 7)\<rparr>"

definition grains_340 :: micrograph where
  "grains_340 = \<lparr>img_h = 340, img_w = 340, n_contours = (\<lambda>c. 7)\<rparr>"

definition blank_100 :: micrograph where
  "blank_100 = \<lparr>img_h = 100, img_w = 100, n_contours = (\<lambda>c. 0)\<rparr>"

definition tiny_2 :: micrograph where
  "tiny_2 = \<lparr>img_h = 2, img_w = 2, n_contours = (\<lambda>c. 1)\<rparr>"

text \<open>Draws inside \<open>[-10, 10]\<close>, the range of \<open>randint\<close> for a side of 100 pixels.\<close>

definition draws :: "nat \<Rightarrow> int \<times> int" where
  "draws i = (4 * int i - 8, 10 - 5 * int i)"

section \<open>Verification\<close>

subsection \<open>Facts about binary64 rounding\<close>

lemma round_half_even_of_int [simp]: "round_half_even (of_int k) = k"
  by (simp add: round_half_even_def)

lemma round_half_even_bounds: "\<lfloor>y\<rfloor> \<le> round_half_even y \<and> round_half_even y \<le> \<lfloor>y\<rfloor> + 1"
  by (simp add: round_half_even_def Let_def)

lemma round_half_even_mono:
  assumes "x \<le> y"
  shows "round_half_even x \<le> round_half_even y"
proof (cases "\<lfloor>x\<rfloor> = \<lfloor>y\<rfloor>")
  case True
  with assms have "x - of_int \<lfloor>x\<rfloor> \<le> y - of_int \<lfloor>y\<rfloor>" by simp
  then show ?thesis
    using True by (auto simp add: round_half_even_def Let_def)
next
  case False
  with assms have "\<lfloor>x\<rfloor> + 1 \<le> \<lfloor>y\<rfloor>" using floor_mono [OF assms] by linarith
  then show ?thesis
    using round_half_even_bounds [of x] round_half_even_bounds [of y] by linarith
qed

lemma ulp_pos: "0 < ulp x"
  by (simp add: ulp_def)

lemma fl_0 [simp]: "fl 0 = 0"
  by (simp add: fl_def)

lemma fl_minus: "fl (- x) = - fl x"
  by (simp add: fl_def ulp_def sgn_minus)

lemma fl_nonneg: "0 \<le> x \<Longrightarrow> 0 \<le> fl x"
proof -
  assume x: "0 \<le> x"
  have "0 \<le> \<bar>x\<bar> / ulp x" using ulp_pos [of x] by simp
  then have "round_half_even 0 \<le> round_half_even (\<bar>x\<bar> / ulp x)"
    by (rule round_half_even_mono)
  then have "0 \<le> round_half_even (\<bar>x\<bar> / ulp x)" 
    using round_half_even_of_int [of 0] by simp
  then show ?thesis
    using x ulp_pos [of x] by (simp add: fl_def sgn_if)
qed

text \<open>The value of \<open>fl\<close> once the binade of the argument is known.\<close>

lemma ulp_eq:
  assumes "2 powr of_int e \<le> \<bar>x\<bar>" and "\<bar>x\<bar> < 2 powr of_int (e + 1)"
  shows "ulp x = 2 powr of_int (max e (- 1022) - 52)"
proof -
  have "0 < \<bar>x\<bar>" using assms(1) powr_gt_zero [of 2 "of_int e"] by linarith
  then have "\<lfloor>log 2 \<bar>x\<bar>\<rfloor> = e"
    using assms by (simp add: floor_log_eq_powr_iff)
  then show ?thesis by (simp add: ulp_def)
qed

lemma fl_eq:
  assumes "0 < x" and "2 powr of_int e \<le> x" and "x < 2 powr of_int (e + 1)"
  shows "fl x = of_int (round_half_even (x / 2 powr of_int (max e (- 1022) - 52)))
                  * 2 powr of_int (max e (- 1022) - 52)"
  using assms ulp_eq [of e x] by (simp add: fl_def)

lemma fl_mono_pos:
  assumes "0 < x" and "x \<le> y"
  shows "fl x \<le> fl y"
proof -
  from assms have y: "0 < y" by simp
  define lx where "lx = \<lfloor>log 2 x\<rfloor>"
  define ly where "ly = \<lfloor>log 2 y\<rfloor>"
  define ex where "ex = max lx (- 1022)"
  define ey where "ey = max ly (- 1022)"
  have l: "lx \<le> ly" unfolding lx_def ly_def using assms by (intro floor_mono) simp
  then have e: "ex \<le> ey" by (simp add: ex_def ey_def)
  have ux: "ulp x = 2 powr of_int (ex - 52)" using assms(1) by (simp add: ulp_def ex_def lx_def)
  have uy: "ulp y = 2 powr of_int (ey - 52)" using y by (simp add: ulp_def ey_def ly_def)
  have fx: "fl x = of_int (round_half_even (x / ulp x)) * ulp x"
    using assms(1) by (simp add: fl_def)
  have fy: "fl y = of_int (round_half_even (y / ulp y)) * ulp y"
    using y by (simp add: fl_def)
  show ?thesis
  proof (cases "ex = ey")
    case True
    then have u: "ulp x = ulp y" by (simp add: ux uy)
    have "x / ulp y \<le> y / ulp y" using assms(2) ulp_pos [of y] by (simp add: divide_right_mono)
    then have "round_half_even (x / ulp y) \<le> round_half_even (y / ulp y)"
      by (rule round_half_even_mono)
    then show ?thesis unfolding fx fy u using ulp_pos [of y] by simp
  next
    case False
    with e have lt: "ex + 1 \<le> ey" by simp
    then have eyl: "ey = ly" by (simp add: ey_def ex_def)
    have xlt: "x < 2 powr of_int (lx + 1)"
      using assms(1) floor_log_eq_powr_iff [of x 2 lx] by (simp add: lx_def)
    have "lx + 1 \<le> ex + 1" by (simp add: ex_def)
    then have "(2::real) powr of_int (lx + 1) \<le> 2 powr of_int (ex + 1)" by simp
    with xlt have xle: "x \<le> 2 powr of_int (ex + 1)" by linarith
    have yge: "2 powr of_int ey \<le> y"
      using y floor_log_eq_powr_iff [of y 2 ly] by (simp add: ly_def eyl)
    have a: "fl x \<le> 2 powr of_int (ex + 1)"
    proof -
      have "x / ulp x \<le> 2 powr of_int (ex + 1) / ulp x"
        using xle ulp_pos [of x] by (simp add: divide_right_mono)
      also have "2 powr of_int (ex + 1) / ulp x = 2 powr 53"
        unfolding ux by (simp flip: powr_diff)
      also have "\<dots> = of_int (2 ^ 53)" by simp
      finally have "round_half_even (x / ulp x) \<le> round_half_even (of_int (2 ^ 53))"
        by (rule round_half_even_mono)
      then have "round_half_even (x / ulp x) \<le> 2 ^ 53" by (simp only: round_half_even_of_int)
      then have "of_int (round_half_even (x / ulp x)) \<le> (2::real) ^ 53"
        by (metis of_int_le_iff of_int_numeral of_int_power)
      then have "fl x \<le> 2 ^ 53 * ulp x"
        unfolding fx using ulp_pos [of x] by (simp add: mult_right_mono)
      also have "\<dots> = 2 powr 53 * 2 powr of_int (ex - 52)" unfolding ux by simp
      also have "\<dots> = 2 powr (53 + of_int (ex - 52))" by (rule powr_add [symmetric])
      also have "53 + real_of_int (ex - 52) = of_int (ex + 1)" by simp
      finally show ?thesis .
    qed
    have b: "2 powr of_int ey \<le> fl y"
    proof -
      have "2 powr of_int ey / ulp y \<le> y / ulp y"
        using yge ulp_pos [of y] by (simp add: divide_right_mono)
      moreover have "2 powr of_int ey / ulp y = 2 powr 52"
        unfolding uy by (simp flip: powr_diff)
      moreover have "(2::real) powr 52 = of_int (2 ^ 52)" by simp
      ultimately have "round_half_even (of_int (2 ^ 52)) \<le> round_half_even (y / ulp y)"
        by (intro round_half_even_mono) simp
      then have "2 ^ 52 \<le> round_half_even (y / ulp y)" by (simp only: round_half_even_of_int)
      then have "(2::real) ^ 52 \<le> of_int (round_half_even (y / ulp y))"
        by (metis of_int_le_iff of_int_numeral of_int_power)
      then have "2 ^ 52 * ulp y \<le> fl y"
        unfolding fy using ulp_pos [of y] by (simp add: mult_right_mono)
      moreover have "2 ^ 52 * ulp y = 2 powr 52 * 2 powr of_int (ey - 52)" unfolding uy by simp
      moreover have "2 powr 52 * 2 powr of_int (ey - 52) = (2::real) powr (52 + of_int (ey - 52))"
        by (rule powr_add [symmetric])
      moreover have "52 + real_of_int (ey - 52) = of_int ey" by simp
      ultimately show ?thesis by (simp only:)
    qed
    have "(2::real) powr of_int (ex + 1) \<le> 2 powr of_int ey" using lt by simp
    with a b show ?thesis by linarith
  qed
qed

lemma fl_mono:
  assumes "x \<le> y"
  shows "fl x \<le> fl y"
proof -
  consider "0 < x" | "x \<le> 0" "0 \<le> y" | "y < 0" by linarith
  then show ?thesis
  proof cases
    case 1
    then show ?thesis using assms by (rule fl_mono_pos)
  next
    case 2
    have "fl x = - fl (- x)" using fl_minus [of "- x"] by simp
    moreover have "0 \<le> fl (- x)" using 2 by (intro fl_nonneg) simp
    moreover have "0 \<le> fl y" using 2 by (intro fl_nonneg)
    ultimately show ?thesis by simp
  next
    case 3
    then have "fl (- y) \<le> fl (- x)" using assms by (intro fl_mono_pos) simp_all
    then show ?thesis by (simp add: fl_minus)
  qed
qed

text \<open>Positive values above half the smallest subnormal do not round to zero.\<close>

lemma round_half_even_pos: "1 / 2 < y \<Longrightarrow> 1 \<le> round_half_even y"
proof -
  assume y: "1 / 2 < y"
  then have "0 \<le> \<lfloor>y\<rfloor>" by simp
  then consider "\<lfloor>y\<rfloor> = 0" | "1 \<le> \<lfloor>y\<rfloor>" by linarith
  then show ?thesis
  proof cases
    case 1
    then show ?thesis using y by (simp add: round_half_even_def)
  next
    case 2
    then show ?thesis using round_half_even_bounds [of y] by linarith
  qed
qed


lemma fl_pos:
  assumes "2 powr (- 1075) < x"
  shows "0 < fl x"
proof -
  have x: "0 < x" using assms powr_gt_zero [of 2 "- 1075"] by linarith
  define k where "k = \<lfloor>log 2 \<bar>x\<bar>\<rfloor>"
  have kx: "2 powr of_int k \<le> x"
    using x floor_log_eq_powr_iff [of "\<bar>x\<bar>" 2 k] by (simp add: k_def)
  have half: "1 / 2 < x / ulp x"
  proof (cases "k < - 1022")
    case True
    then have u: "ulp x = 2 powr (- 1074)" by (simp add: ulp_def k_def [symmetric])
    have "(2::real) powr (- 1075) = 1 / 2 * 2 powr (- 1074)"
      using powr_add [of "2::real" "- 1" "- 1074"] by (simp add: powr_neg_one)
    with assms have "1 / 2 * 2 powr (- 1074) < x" by simp
    then show ?thesis unfolding u by (simp add: field_simps)
  next
    case False
    then have u: "ulp x = 2 powr of_int (k - 52)" by (simp add: ulp_def k_def [symmetric])
    have "2 powr of_int k / ulp x = 2 powr 52" unfolding u by (simp flip: powr_diff)
    moreover have "2 powr of_int k / ulp x \<le> x / ulp x"
      using kx ulp_pos [of x] by (simp add: divide_right_mono)
    ultimately have "2 powr 52 \<le> x / ulp x" by simp
    moreover have "(1::real) / 2 < 2 powr 52" by simp
    ultimately show ?thesis by linarith
  qed
  then have "1 \<le> round_half_even (x / ulp x)" by (rule round_half_even_pos)
  then have "(1::real) \<le> of_int (round_half_even (x / ulp x))" by simp
  then have "0 < of_int (round_half_even (x / ulp x)) * ulp x"
    using ulp_pos [of x] by (simp add: zero_less_mult_iff)
  then show ?thesis using x by (simp add: fl_def)
qed


text \<open>Integers of at most 53 bits are binary64 values.\<close>

lemma fl_of_int:
  assumes "\<bar>k\<bar> < 2 ^ 53"
  shows "fl (of_int k) = of_int k"
proof (cases "k = 0")
  case True
  then show ?thesis by simp
next
  case False
  define a :: real where "a = \<bar>of_int k\<bar>"
  have a1: "1 \<le> a" using False by (simp add: a_def)
  define e where "e = \<lfloor>log 2 a\<rfloor>"
  have lo: "2 powr of_int e \<le> a" and hi: "a < 2 powr of_int (e + 1)"
    using a1 floor_log_eq_powr_iff [of a 2 e] by (simp_all add: e_def)
  have e0: "0 \<le> e" unfolding e_def using a1 by simp
  have "a < 2 ^ 53" using assms unfolding a_def
    by (metis of_int_abs of_int_less_iff of_int_numeral of_int_power)
  then have "a < 2 powr 53" by simp
  with lo have "(2::real) powr of_int e < 2 powr 53" by linarith
  then have "real_of_int e < 53"
    by (subst (asm) powr_less_cancel_iff) simp_all
  then have e52: "e \<le> 52" by simp
  define m where "m = nat (52 - e)"
  have u: "ulp (of_int k) = 1 / 2 ^ m"
  proof -
    have "ulp (of_int k) = 2 powr of_int (e - 52)"
      using e0 by (simp add: ulp_def e_def a_def)
    also have "of_int (e - 52) = - real m" using e52 by (simp add: m_def)
    also have "2 powr (- real m) = 1 / 2 ^ m"
      by (simp add: powr_minus powr_realpow field_simps)
    finally show ?thesis .
  qed
  have "a / ulp (of_int k) = of_int (\<bar>k\<bar> * 2 ^ m)"
    unfolding u by (simp add: a_def)
  then have "round_half_even (a / ulp (of_int k)) = \<bar>k\<bar> * 2 ^ m"
    by (simp only: round_half_even_of_int)
  then have "fl (of_int k) = sgn (of_int k) * (of_int (\<bar>k\<bar> * 2 ^ m) * (1 / 2 ^ m))"
    unfolding fl_def a_def [symmetric] u by simp
  also have "\<dots> = sgn (of_int k) * \<bar>of_int k\<bar>" by simp
  also have "\<dots> = of_int k" by (simp add: sgn_if)
  finally show ?thesis .
qed

lemma fl_numeral_examples: "fl 1 = 1" "fl 10 = 10" "fl 20 = 20" "fl 100 = 100" "fl 200 = 200" "fl 70 = 70"
  using fl_of_int [of 1] fl_of_int [of 10] fl_of_int [of 20] fl_of_int [of 100]
    fl_of_int [of 200] fl_of_int [of 70] by simp_all

lemma fl_eval:
  assumes "0 < x" and "2 powr of_int e \<le> x" and "x < 2 powr of_int (e + 1)"
    and "- 1022 \<le> e" and "round_half_even (x / 2 powr of_int (e - 52)) = r"
  shows "fl x = of_int r * 2 powr of_int (e - 52)"
proof -
  from assms(4) have "max e (- 1022) = e" by simp
  with fl_eq [OF assms(1-3)] assms(5) show ?thesis by simp
qed

text \<open>Concrete roundings used by the examples.\<close>

lemma fl_4000: "fl (1 / 4000) = 4611686018427388 / 2 ^ 64"
proof -
  have "fl (1 / 4000) = of_int 4611686018427388 * 2 powr of_int (-12 - 52)"
    by (rule fl_eval) (simp_all add: powr_neg_numeral round_half_even_def Let_def)
  then show ?thesis by (simp add: powr_neg_numeral)
qed

lemma fl_3_10000: "fl (3 / 10000) = 5534023222112865 / 2 ^ 64"
proof -
  have "fl (3 / 10000) = of_int 5534023222112865 * 2 powr of_int (-12 - 52)"
    by (rule fl_eval) (simp_all add: powr_neg_numeral round_half_even_def Let_def)
  then show ?thesis by (simp add: powr_neg_numeral)
qed

lemma fl_pow_60: "fl (1 / 2 ^ 60) = 1 / 2 ^ 60"
proof -
  have "fl (1 / 2 ^ 60) = of_int 4503599627370496 * 2 powr of_int (-60 - 52)"
    by (rule fl_eval) (simp_all add: powr_neg_numeral round_half_even_def Let_def)
  then show ?thesis by (simp add: powr_neg_numeral)
qed

lemma fl_pow_61: "fl (1 / 2 ^ 61) = 1 / 2 ^ 61"
proof -
  have "fl (1 / 2 ^ 61) = of_int 4503599627370496 * 2 powr of_int (-61 - 52)"
    by (rule fl_eval) (simp_all add: powr_neg_numeral round_half_even_def Let_def)
  then show ?thesis by (simp add: powr_neg_numeral)
qed

lemma fl_23_pow_60: "fl (23 * (1 / 2 ^ 60)) = 23 / 2 ^ 60"
proof -
  have "fl (23 * (1 / 2 ^ 60)) = of_int 6473924464345088 * 2 powr of_int (-56 - 52)"
    by (rule fl_eval) (simp_all add: powr_neg_numeral round_half_even_def Let_def)
  then show ?thesis by (simp add: powr_neg_numeral)
qed

lemma fl_23_pow_61: "fl (23 * (1 / 2 ^ 61)) = 23 / 2 ^ 61"
proof -
  have "fl (23 * (1 / 2 ^ 61)) = of_int 6473924464345088 * 2 powr of_int (-57 - 52)"
    by (rule fl_eval) (simp_all add: powr_neg_numeral round_half_even_def Let_def)
  then show ?thesis by (simp add: powr_neg_numeral)
qed

lemma fl_70_pow_60: "fl (70 + 23 / 2 ^ 60) = 70"
proof -
  have "fl (70 + 23 / 2 ^ 60) = of_int 4925812092436480 * 2 powr of_int (6 - 52)"
    by (rule fl_eval) (simp_all add: powr_neg_numeral round_half_even_def Let_def)
  then show ?thesis by (simp add: powr_neg_numeral)
qed

lemma fl_70_pow_61: "fl (70 + 23 / 2 ^ 61) = 70"
proof -
  have "fl (70 + 23 / 2 ^ 61) = of_int 4925812092436480 * 2 powr of_int (6 - 52)"
    by (rule fl_eval) (simp_all add: powr_neg_numeral round_half_even_def Let_def)
  then show ?thesis by (simp add: powr_neg_numeral)
qed


lemma py_round_4000: "py_round (4611686018427388 / 2 ^ 64) 4 = 5534023222112865 / 2 ^ 64"
proof -
  have "round_half_even (4611686018427388 / 2 ^ 64 * 10 ^ 4) = 3"
    by (simp add: round_half_even_def Let_def)
  then show ?thesis
    unfolding py_round_def using fl_3_10000 by simp
qed

lemma py_round_int: "\<bar>k\<bar> < 2 ^ 53 \<Longrightarrow> py_round (of_int k) 4 = of_int k"
proof -
  assume k: "\<bar>k\<bar> < 2 ^ 53"
  have "of_int k * (10::real) ^ 4 = of_int (k * 10 ^ 4)" by simp
  then have "round_half_even (of_int k * 10 ^ 4) = k * 10 ^ 4"
    by (simp only: round_half_even_of_int)
  then show ?thesis
    unfolding py_round_def using fl_of_int [OF k] by simp
qed

lemma quotient_35: "fl (4835904713300691 / 2 ^ 42 / 35) = 8842797190035549 / 2 ^ 48"
proof -
  have "fl (4835904713300691 / 2 ^ 42 / 35) = of_int 8842797190035549 * 2 powr of_int (4 - 52)"
    by (rule fl_eval) (simp_all add: powr_neg_numeral round_half_even_def Let_def)
  then show ?thesis by (simp add: powr_neg_numeral)
qed

lemma quotient_7: "fl (8842797190035549 / 2 ^ 48 / 7) = 5053026965734599 / 2 ^ 50"
proof -
  have "fl (8842797190035549 / 2 ^ 48 / 7) = of_int 5053026965734599 * 2 powr of_int (2 - 52)"
    by (rule fl_eval) (simp_all add: powr_neg_numeral round_half_even_def Let_def)
  then show ?thesis by (simp add: powr_neg_numeral)
qed

lemma quotient_7_next:
  "fl (8842797190035549 / 2 ^ 48 / (7 + 1 / 2 ^ 50)) = 5053026965734599 / 2 ^ 50"
proof -
  have "fl (8842797190035549 / 2 ^ 48 / (7 + 1 / 2 ^ 50))
      = of_int 5053026965734599 * 2 powr of_int (2 - 52)"
    by (rule fl_eval) (simp_all add: powr_neg_numeral round_half_even_def Let_def)
  then show ?thesis by (simp add: powr_neg_numeral)
qed

lemma log10_cr_mono: "0 < x \<Longrightarrow> x \<le> y \<Longrightarrow> log10_cr x \<le> log10_cr y"
  unfolding log10_cr_def by (intro fl_mono) simp

lemma pow_cr_antimono: "0 < x \<Longrightarrow> x \<le> y \<Longrightarrow> pow_cr y (- 0.5) \<le> pow_cr x (- 0.5)"
  unfolding pow_cr_def by (intro fl_mono powr_mono2') simp_all

lemma pow_cr_2_120: "pow_cr (2 ^ 120) (- 0.5) = 1 / 2 ^ 60"
proof -
  have "(2::real) ^ 120 = 2 powr 120" by simp
  then have "((2::real) ^ 120) powr (- 0.5) = (2 powr 120) powr (- 0.5)" by (simp only:)
  also have "\<dots> = 2 powr (120 * (- 0.5))" by (rule powr_powr)
  also have "\<dots> = 1 / 2 ^ 60" by (simp add: powr_neg_numeral)
  finally have e: "((2::real) ^ 120) powr (- 0.5) = 1 / 2 ^ 60" .
  show ?thesis unfolding pow_cr_def e by (rule fl_pow_60)
qed

lemma pow_cr_2_122: "pow_cr (2 ^ 122) (- 0.5) = 1 / 2 ^ 61"
proof -
  have "(2::real) ^ 122 = 2 powr 122" by simp
  then have "((2::real) ^ 122) powr (- 0.5) = (2 powr 122) powr (- 0.5)" by (simp only:)
  also have "\<dots> = 2 powr (122 * (- 0.5))" by (rule powr_powr)
  also have "\<dots> = 1 / 2 ^ 61" by (simp add: powr_neg_numeral)
  finally have e: "((2::real) ^ 122) powr (- 0.5) = 1 / 2 ^ 61" .
  show ?thesis unfolding pow_cr_def e by (rule fl_pow_61)
qed

subsection \<open>Facts about the truncated product\<close>

lemma bit_length_lower: "0 < n \<Longrightarrow> 2 ^ (bit_length n - 1) \<le> n"
proof (induction n rule: bit_length.induct)
  case (1 n)
  show ?case
  proof (cases "n div 2 = 0")
    case True
    with "1.prems" have "n = 1" by (simp add: div_eq_0_iff)
    then show ?thesis by (simp add: bit_length.simps)
  next
    case False
    with 1 have ih: "2 ^ (bit_length (n div 2) - 1) \<le> n div 2" by simp
    from False have pos: "0 < bit_length (n div 2)"
      by (simp add: bit_length.simps [of "n div 2"])
    have "bit_length n = Suc (bit_length (n div 2))"
      using "1.prems" by (simp add: bit_length.simps [of n])
    then have "(2::nat) ^ (bit_length n - 1) = 2 * 2 ^ (bit_length (n div 2) - 1)"
      using pos by (cases "bit_length (n div 2)") simp_all
    also have "\<dots> \<le> 2 * (n div 2)" using ih by simp
    also have "\<dots> \<le> n" by simp
    finally show ?thesis .
  qed
qed

lemma round53_upper: "round53 N * 2 ^ 52 \<le> N * (2 ^ 52 + 1)"
proof (cases "bit_length N \<le> 53")
  case True
  then have "round53 N = N" by (simp add: round53_def)
  then show ?thesis by simp
next
  case False
  define s where "s = bit_length N - 53"
  define q where "q = N div 2 ^ s"
  define r where "r = N mod 2 ^ s"
  from False have Npos: "0 < N" by (cases "N = 0") (simp_all add: bit_length.simps)
  from False have bl: "bit_length N - 1 = s + 52" by (simp add: s_def)
  have "(2::nat) ^ (s + 52) \<le> N" using bit_length_lower [OF Npos] bl by simp
  then have big: "(2::nat) ^ s * 2 ^ 52 \<le> N" by (simp add: power_add)
  have N: "N = q * 2 ^ s + r" unfolding q_def r_def by (rule div_mult_mod_eq [symmetric])
  have "round53 N \<le> (q + 1) * 2 ^ s"
    by (simp add: round53_def Let_def s_def [symmetric] q_def [symmetric])
  also have "\<dots> \<le> N + 2 ^ s" using N by (simp add: algebra_simps)
  finally have "round53 N * 2 ^ 52 \<le> (N + 2 ^ s) * 2 ^ 52" by simp
  also have "\<dots> = N * 2 ^ 52 + 2 ^ s * 2 ^ 52" by (simp add: algebra_simps)
  also have "\<dots> \<le> N * 2 ^ 52 + N" using big by simp
  finally show ?thesis by (simp add: algebra_simps)
qed

text \<open>The radius is at most half the shorter side, whatever the rounding does.\<close>

lemma radius_le_half: "radius h w \<le> min h w div 2"
proof -
  define n where "n = min h w"
  define R where "R = round53 (n * 3152519739159347)"
  have up: "R * 2 ^ 52 \<le> (n * 3152519739159347) * (2 ^ 52 + 1)"
    unfolding R_def by (rule round53_upper)
  have "R < (n div 2 + 1) * 2 ^ 53"
  proof -
    have "2 * (n div 2 + 1) \<ge> n + 1" by arith
    moreover from up have "R * 4503599627370496 \<le> n * 3152519739159347 * 4503599627370497"
      by simp
    ultimately show ?thesis by simp
  qed
  then have "R div 2 ^ 53 < n div 2 + 1"
    by (simp add: less_mult_imp_div_less)
  then show ?thesis
    by (simp add: radius_def int_float_mul_def Let_def n_def [symmetric] R_def [symmetric])
qed

lemma bit_length_upper: "n < 2 ^ bit_length n"
proof (induction n rule: bit_length.induct)
  case (1 n)
  show ?case
  proof (cases "n = 0")
    case True
    then show ?thesis by simp
  next
    case False
    with 1 have ih: "n div 2 < 2 ^ bit_length (n div 2)" by simp
    have "bit_length n = Suc (bit_length (n div 2))"
      using False by (simp add: bit_length.simps [of n])
    moreover have "n < 2 * 2 ^ bit_length (n div 2)" using ih by arith
    ultimately show ?thesis by simp
  qed
qed

lemma bit_length_eqI:
  assumes "2 ^ k \<le> n" and "n < 2 ^ Suc k"
  shows "bit_length n = Suc k"
proof -
  from assms have pos: "0 < n" by (cases "n = 0") simp_all
  have "(2::nat) ^ k < 2 ^ bit_length n"
    using assms(1) bit_length_upper [of n] by (rule le_less_trans)
  then have a: "k < bit_length n" by simp
  have "(2::nat) ^ (bit_length n - 1) < 2 ^ Suc k"
    using bit_length_lower [OF pos] assms(2) by (rule le_less_trans)
  then have b: "bit_length n - 1 < Suc k" by (simp del: power_Suc)
  from a b show ?thesis by arith
qed

text \<open>The radius and the jitter range of the example images.\<close>

lemma radius_100: "radius 100 100 = 35"
proof -
  have "bit_length 315251973915934700 = Suc 58"
    by (rule bit_length_eqI) simp_all
  then show ?thesis
    by (simp add: radius_def int_float_mul_def round53_def Let_def)
qed

lemma radius_2: "radius 2 2 = 0"
proof -
  have "bit_length 6305039478318694 = Suc 52"
    by (rule bit_length_eqI) simp_all
  then show ?thesis
    by (simp add: radius_def int_float_mul_def round53_def Let_def)
qed

lemma jitter_100: "jitter 100 = 10"
proof -
  have "bit_length 360287970189639700 = Suc 58"
    by (rule bit_length_eqI) simp_all
  then show ?thesis
    by (simp add: jitter_def int_float_mul_def round53_def Let_def)
qed

text \<open>
  The rounding matters: \<open>340 * 0.35\<close> is \<open>118.99999999999999\<close> in binary64, so the
  radius of a 340 x 340 image is 118, not 119.
\<close>

lemma radius_340: "radius 340 340 = 118"
proof -
  have "bit_length 1071856711314177980 = Suc 59"
    by (rule bit_length_eqI) simp_all
  then show ?thesis
    by (simp add: radius_def int_float_mul_def round53_def Let_def)
qed

lemma round53_lower: "N * (2 ^ 52 - 1) \<le> round53 N * 2 ^ 52"
proof (cases "bit_length N \<le> 53")
  case True
  then have "round53 N = N" by (simp add: round53_def)
  then show ?thesis by simp
next
  case False
  define s where "s = bit_length N - 53"
  define q where "q = N div 2 ^ s"
  define r where "r = N mod 2 ^ s"
  from False have Npos: "0 < N" by (cases "N = 0") (simp_all add: bit_length.simps)
  from False have bl: "bit_length N - 1 = s + 52" by (simp add: s_def)
  have "(2::nat) ^ (s + 52) \<le> N" using bit_length_lower [OF Npos] bl by simp
  then have big: "(2::nat) ^ s * 2 ^ 52 \<le> N" by (simp add: power_add)
  have N: "N = q * 2 ^ s + r" unfolding q_def r_def by (rule div_mult_mod_eq [symmetric])
  have rlt: "r < 2 ^ s" by (simp add: r_def)
  have ge: "q * 2 ^ s \<le> round53 N"
    by (simp add: round53_def Let_def s_def [symmetric] q_def [symmetric])
  have "N * 2 ^ 52 \<le> (q * 2 ^ s + 2 ^ s) * 2 ^ 52" using N rlt by simp
  also have "\<dots> = q * 2 ^ s * 2 ^ 52 + 2 ^ s * 2 ^ 52" by (simp add: algebra_simps)
  also have "\<dots> \<le> round53 N * 2 ^ 52 + N" using ge big by (simp add: add_mono)
  finally have "N * 2 ^ 52 \<le> round53 N * 2 ^ 52 + N" .
  then show ?thesis by (simp add: algebra_simps)
qed

text \<open>Rounding never passes a multiple of \<open>2^53\<close> when the number has at most 106 bits.\<close>

lemma round53_le_multiple:
  assumes "N \<le> m * 2 ^ 53" and "N < 2 ^ 106"
  shows "round53 N \<le> m * 2 ^ 53"
proof -
  define s where "s = bit_length N - 53"
  define q where "q = N div 2 ^ s"
  define r where "r = N mod 2 ^ s"
  have "bit_length N \<le> 106"
  proof (rule ccontr)
    assume "\<not> bit_length N \<le> 106"
    then have b: "106 \<le> bit_length N - 1" by simp
    then have "0 < N" by (cases "N = 0") (simp_all add: bit_length.simps)
    then have "2 ^ (bit_length N - 1) \<le> N" by (rule bit_length_lower)
    moreover have "(2::nat) ^ 106 \<le> 2 ^ (bit_length N - 1)"
      using b by (intro power_increasing) simp_all
    ultimately show False using assms(2) by simp
  qed
  then have s: "s \<le> 53" by (simp add: s_def)
  define t where "t = 53 - s"
  define m' where "m' = m * 2 ^ t"
  have "(2::nat) ^ 53 = 2 ^ t * 2 ^ s" using s by (simp add: t_def flip: power_add)
  then have M: "m * 2 ^ 53 = m' * 2 ^ s" by (simp add: m'_def)
  have N: "N = q * 2 ^ s + r" unfolding q_def r_def by (rule div_mult_mod_eq [symmetric])
  have up: "round53 N \<le> (if r = 0 then q else q + 1) * 2 ^ s"
    by (simp add: round53_def Let_def s_def [symmetric] q_def [symmetric] r_def [symmetric])
  have "(if r = 0 then q else q + 1) \<le> m'"
  proof (cases "r = 0")
    case True
    with N assms(1) M have "q * 2 ^ s \<le> m' * 2 ^ s" by simp
    then show ?thesis using True by simp
  next
    case False
    have "q * 2 ^ s + r \<le> m' * 2 ^ s" using N assms(1) M by simp
    with False have "q * 2 ^ s < m' * 2 ^ s" by linarith
    then have "q < m'" by simp
    then show ?thesis using False by simp
  qed
  then have "(if r = 0 then q else q + 1) * 2 ^ s \<le> m' * 2 ^ s"
    by (rule mult_le_mono1)
  with up have "round53 N \<le> m' * 2 ^ s" by (rule order_trans)
  then show ?thesis unfolding M .
qed

text \<open>
  The radius is \<open>0.35 * min_dim\<close> rounded down, or one less when \<open>0.35 * min_dim\<close> is a
  whole number and the float product falls just below it.
\<close>

lemma radius_bounds:
  assumes "min h w < 2 ^ 32"
  shows "100 * radius h w \<le> 35 * min h w \<and> 35 * min h w \<le> 100 * radius h w + 100"
proof -
  define n where "n = min h w"
  define R where "R = round53 (n * 3152519739159347)"
  define k where "k = 35 * n div 100"
  define j where "j = 35 * n mod 100"
  have n: "n < 2 ^ 32" using assms by (simp add: n_def)
  have kj: "35 * n = 100 * k + j" unfolding k_def j_def by (rule mult_div_mod_eq [symmetric])
  have j: "j < 100" by (simp add: j_def)
  have rad: "radius h w = R div 2 ^ 53"
    by (simp add: radius_def int_float_mul_def Let_def n_def R_def)
  have up: "R * 2 ^ 52 \<le> (n * 3152519739159347) * (2 ^ 52 + 1)"
    unfolding R_def by (rule round53_upper)
  have lo: "(n * 3152519739159347) * (2 ^ 52 - 1) \<le> R * 2 ^ 52"
    unfolding R_def by (rule round53_lower)
  have j5: "j = 0 \<or> 5 \<le> j"
  proof -
    have "5 dvd 35 * n" by simp
    moreover have "5 dvd 100 * k" by simp
    ultimately have "5 dvd j" using kj by (metis dvd_add_right_iff)
    then show ?thesis by (auto elim!: dvdE)
  qed
  have upper: "R < (k + 1) * 2 ^ 53"
  proof (cases "j = 0")
    case True
    have "20 * (n * 3152519739159347) \<le> 20 * (k * 2 ^ 53)" using kj True by simp
    then have "n * 3152519739159347 \<le> k * 2 ^ 53" by simp
    moreover have "n * 3152519739159347 < 2 ^ 106" using n by simp
    ultimately have "R \<le> k * 2 ^ 53" unfolding R_def by (rule round53_le_multiple)
    then show ?thesis by simp
  next
    case False
    with j5 have "5 \<le> j" by simp
    then show ?thesis using up kj j n by simp
  qed
  from upper have "R div 2 ^ 53 < k + 1" by (simp add: less_mult_imp_div_less)
  then have a: "radius h w \<le> k" by (simp add: rad)
  define f where "f = R div 2 ^ 53"
  have fR: "R < (f + 1) * 2 ^ 53"
    using div_mult_mod_eq [of R "2 ^ 53"] mod_less_divisor [of "2 ^ 53" R]
    unfolding f_def [symmetric] by simp
  show ?thesis
  proof (cases "j = 0")
    case True
    have "k * 2 ^ 53 \<le> R + 2 ^ 53" using lo kj True n by simp
    with fR have "k * 2 ^ 53 < (f + 2) * 2 ^ 53" by simp
    then have "k < f + 2" by simp
    then have "k \<le> radius h w + 1" by (simp add: rad f_def)
    with a kj True show ?thesis unfolding n_def [symmetric] by simp
  next
    case False
    with j5 have "5 \<le> j" by simp
    then have "k * 2 ^ 53 \<le> R" using lo kj j n by simp
    with fR have "k * 2 ^ 53 < (f + 1) * 2 ^ 53" by simp
    then have "k < f + 1" by simp
    then have "k \<le> radius h w" by (simp add: rad f_def)
    with a kj j show ?thesis unfolding n_def [symmetric] by simp
  qed
qed

subsection \<open>The sampling loop\<close>

lemma upt_num_circles: "[0..<num_circles] = [0, 1, 2, 3, 4]"
  by (simp add: num_circles_def upt_conv_Cons numeral_eq_Suc)

text \<open>The binary64 total for radius 35 is 1099.5574287564275.\<close>

lemma fl_two_pi: "fl (2 * (884279719003555 / 2 ^ 48)) = 7074237752028440 / 2 ^ 50"
proof -
  have "fl (2 * (884279719003555 / 2 ^ 48)) = of_int 7074237752028440 * 2 powr of_int (2 - 52)"
    by (rule fl_eval) (simp_all add: powr_neg_numeral round_half_even_def Let_def)
  then show ?thesis by (simp add: powr_neg_numeral)
qed

lemma fl_two_pi_35: "fl (7074237752028440 / 2 ^ 50 * 35) = 7737447541281106 / 2 ^ 45"
proof -
  have "fl (7074237752028440 / 2 ^ 50 * 35) = of_int 7737447541281106 * 2 powr of_int (7 - 52)"
    by (rule fl_eval) (simp_all add: powr_neg_numeral round_half_even_def Let_def)
  then show ?thesis by (simp add: powr_neg_numeral)
qed

lemma sum_1: "fl (0 + 7737447541281106 / 2 ^ 45) = 7737447541281106 / 2 ^ 45"
proof -
  have "fl (0 + 7737447541281106 / 2 ^ 45) = of_int 7737447541281106 * 2 powr of_int (7 - 52)"
    by (rule fl_eval) (simp_all add: powr_neg_numeral round_half_even_def Let_def)
  then show ?thesis by (simp add: powr_neg_numeral)
qed

lemma sum_2: "fl (7737447541281106 / 2 ^ 45 + 7737447541281106 / 2 ^ 45) = 7737447541281106 / 2 ^ 44"
proof -
  have "fl (7737447541281106 / 2 ^ 45 + 7737447541281106 / 2 ^ 45) = of_int 7737447541281106 * 2 powr of_int (8 - 52)"
    by (rule fl_eval) (simp_all add: powr_neg_numeral round_half_even_def Let_def)
  then show ?thesis by (simp add: powr_neg_numeral)
qed

lemma sum_3: "fl (7737447541281106 / 2 ^ 44 + 7737447541281106 / 2 ^ 45) = 5803085655960830 / 2 ^ 43"
proof -
  have "fl (7737447541281106 / 2 ^ 44 + 7737447541281106 / 2 ^ 45) = of_int 5803085655960830 * 2 powr of_int (9 - 52)"
    by (rule fl_eval) (simp_all add: powr_neg_numeral round_half_even_def Let_def)
  then show ?thesis by (simp add: powr_neg_numeral)
qed

lemma sum_4: "fl (5803085655960830 / 2 ^ 43 + 7737447541281106 / 2 ^ 45) = 7737447541281106 / 2 ^ 43"
proof -
  have "fl (5803085655960830 / 2 ^ 43 + 7737447541281106 / 2 ^ 45) = of_int 7737447541281106 * 2 powr of_int (9 - 52)"
    by (rule fl_eval) (simp_all add: powr_neg_numeral round_half_even_def Let_def)
  then show ?thesis by (simp add: powr_neg_numeral)
qed

lemma sum_5: "fl (7737447541281106 / 2 ^ 43 + 7737447541281106 / 2 ^ 45) = 4835904713300691 / 2 ^ 42"
proof -
  have "fl (7737447541281106 / 2 ^ 43 + 7737447541281106 / 2 ^ 45) = of_int 4835904713300691 * 2 powr of_int (10 - 52)"
    by (rule fl_eval) (simp_all add: powr_neg_numeral round_half_even_def Let_def)
  then show ?thesis by (simp add: powr_neg_numeral)
qed


lemma total_circumference_px_b64_35:
  "total_circumference_px_b64 35 = 4835904713300691 / 2 ^ 42"
proof -
  have r: "real 35 = 35" by simp
  show ?thesis
    unfolding total_circumference_px_b64_def math_pi_def upt_num_circles fold_simps id_apply o_apply r
      fl_two_pi fl_two_pi_35 sum_1 sum_2 sum_3 sum_4 sum_5 ..
qed

lemma fold_sample_circle:
  "fold (sample_circle img rnd) js st =
     \<lparr>total_intercepts =
        total_intercepts st
        + sum_list (map (\<lambda>i. n_contours img (place_circle (img_h img) (img_w img) (rnd i))) js),
      total_circumference_px =
        total_circumference_px st
        + real (length js) * (2 * pi * real (radius (img_h img) (img_w img))),
      drawn = drawn st @ map (\<lambda>i. place_circle (img_h img) (img_w img) (rnd i)) js\<rparr>"
proof (induction js arbitrary: st)
  case Nil
  show ?case by simp
next
  case (Cons j js)
  have "fold (sample_circle img rnd) (j # js) st
          = fold (sample_circle img rnd) js (sample_circle img rnd j st)"
    by simp
  also have "\<dots> = fold (sample_circle img rnd) js
       \<lparr>total_intercepts = total_intercepts st
          + n_contours img (place_circle (img_h img) (img_w img) (rnd j)),
        total_circumference_px = total_circumference_px st
          + 2 * pi * real (radius (img_h img) (img_w img)),
        drawn = drawn st @ [place_circle (img_h img) (img_w img) (rnd j)]\<rparr>"
    by (simp add: sample_circle_def Let_def)
  finally show ?case
    unfolding Cons.IH by (simp add: algebra_simps)
qed

lemma sample_circles_eq:
  "sample_circles img rnd =
     \<lparr>total_intercepts =
        sum_list (map (\<lambda>i. n_contours img (place_circle (img_h img) (img_w img) (rnd i)))
          [0..<num_circles]),
      total_circumference_px = 5 * (2 * pi * real (radius (img_h img) (img_w img))),
      drawn = map (\<lambda>i. place_circle (img_h img) (img_w img) (rnd i)) [0..<num_circles]\<rparr>"
  by (simp add: sample_circles_def fold_sample_circle num_circles_def)

lemma blank_100_total: "total_intercepts (sample_circles blank_100 draws) = 0"
  by (simp add: sample_circles_eq blank_100_def)

subsection \<open>The metric chain on valid inputs\<close>

lemma calculations_ok:
  assumes "0 < n" and "0 < scale_factor" and "materials_db material = Some (s0, k)"
    and um: "um = c / real n / scale_factor"
  shows "calculations n c scale_factor material =
      bind_err (yield_strength s0 k (um / 1000)) (\<lambda>ys.
      bind_err (calculate_astm um) (\<lambda>g.
        Inr \<lparr>r_intercepts = n, r_mean_intercept_um = um, r_astm = g, r_d_mm = um / 1000,
             r_s0 = s0, r_k = k, r_yield_strength = ys\<rparr>))"
proof -
  have 1: "float_div c (real n) = Inr (c / real n)"
    using assms(1) by (simp add: float_div_def)
  have 2: "float_div (c / real n) scale_factor = Inr um"
    using assms(2) by (simp add: float_div_def um)
  have 3: "materials_db_getitem material = Inr (s0, k)"
    using assms(3) by (simp add: materials_db_getitem_def)
  have "calculations n c scale_factor material =
      bind_err (float_div c (real n)) (\<lambda>avg_intercept_px.
        bind_err (float_div avg_intercept_px scale_factor) (\<lambda>avg_grain_intercept_um.
        let d_mm = avg_grain_intercept_um / 1000 in
        bind_err (materials_db_getitem material) (\<lambda>(s0, k).
        bind_err (yield_strength s0 k d_mm) (\<lambda>ys.
        bind_err (calculate_astm avg_grain_intercept_um) (\<lambda>g.
          Inr \<lparr>r_intercepts = n, r_mean_intercept_um = avg_grain_intercept_um,
               r_astm = g, r_d_mm = d_mm, r_s0 = s0, r_k = k, r_yield_strength = ys\<rparr>)))))"
    using assms(1) by (simp add: calculations_def)
  also have "\<dots> = bind_err (yield_strength s0 k (um / 1000)) (\<lambda>ys.
      bind_err (calculate_astm um) (\<lambda>g.
        Inr \<lparr>r_intercepts = n, r_mean_intercept_um = um, r_astm = g, r_d_mm = um / 1000,
             r_s0 = s0, r_k = k, r_yield_strength = ys\<rparr>))"
    unfolding 1 by (simp add: bind_err_def 2 3 Let_def)
  finally show ?thesis .
qed

lemma calculations_pos:
  assumes "0 < n" and "0 < scale_factor" and "materials_db material = Some (s0, k)"
    and "0 < c" and um: "um = c / real n / scale_factor" and nz: "fl (um / 1000) \<noteq> 0"
  shows "calculations n c scale_factor material =
      Inr \<lparr>r_intercepts = n, r_mean_intercept_um = um,
           r_astm = - 6.643856 * log 10 (um / 1000) - 3.288,
           r_d_mm = um / 1000, r_s0 = s0, r_k = k,
           r_yield_strength = s0 + k * (um / 1000) powr (- 0.5)\<rparr>"
proof -
  have pos: "0 < um" using assms(1,2,4) unfolding um by simp
  have y: "yield_strength s0 k (um / 1000) = Inr (s0 + k * (um / 1000) powr (- 0.5))"
    using pos by (simp add: yield_strength_def float_pow_def bind_err_def except_zero_division_def)
  have g: "calculate_astm um = Inr (- 6.643856 * log 10 (um / 1000) - 3.288)"
    using pos nz by (simp add: calculate_astm_def float_log10_def bind_err_def Let_def)
  show ?thesis
    unfolding calculations_ok [OF assms(1-3) um] y g by (simp add: bind_err_def)
qed

lemma fl_twentieth_nonzero: "fl (50 / 1000) \<noteq> 0"
proof -
  have "(2::real) powr (- 1075) < 50 / 1000" by (simp add: powr_neg_numeral)
  then have "0 < fl (50 / 1000)" by (rule fl_pos)
  then show ?thesis by simp
qed

lemma steel: "materials_db ''Steel (Low Carbon)'' = Some (70, 23)"
  by (simp add: materials_db_def)

lemma unobtainium: "materials_db ''Unobtainium'' = None"
  by (simp add: materials_db_def)

lemma grains_100_sample:
  "sample_circles grains_100 rnd =
     \<lparr>total_intercepts = 35, total_circumference_px = 350 * pi,
      drawn = map (\<lambda>i. place_circle 100 100 (rnd i)) [0, 1, 2, 3, 4]\<rparr>"
  by (simp add: sample_circles_eq grains_100_def upt_num_circles radius_100)

lemma grains_340_sample:
  "sample_circles grains_340 rnd =
     \<lparr>total_intercepts = 35, total_circumference_px = 1180 * pi,
      drawn = map (\<lambda>i. place_circle 340 340 (rnd i)) [0, 1, 2, 3, 4]\<rparr>"
  by (simp add: sample_circles_eq grains_340_def upt_num_circles radius_340)

lemma analyze_grains_Inr:
  assumes "analyze_grains (Some img) scale_factor material rnd = Inr rep"
  shows "0 < scale_factor \<and> 0 < total_intercepts (sample_circles img rnd) \<and>
         r_intercepts rep = total_intercepts (sample_circles img rnd) \<and>
         r_mean_intercept_um rep =
           total_circumference_px (sample_circles img rnd)
             / real (total_intercepts (sample_circles img rnd)) / scale_factor \<and>
         r_d_mm rep = r_mean_intercept_um rep / 1000 \<and>
         materials_db material = Some (r_s0 rep, r_k rep) \<and>
         yield_strength (r_s0 rep) (r_k rep) (r_d_mm rep) = Inr (r_yield_strength rep) \<and>
         calculate_astm (r_mean_intercept_um rep) = Inr (r_astm rep)"
proof -
  define n where "n = total_intercepts (sample_circles img rnd)"
  define c where "c = total_circumference_px (sample_circles img rnd)"
  define um where "um = c / real n / scale_factor"
  from assms have sc: "0 < scale_factor"
    by (simp add: analyze_grains_def split: if_splits)
  with assms have calc: "calculations n c scale_factor material = Inr rep"
    by (simp add: analyze_grains_def Let_def n_def c_def)
  then have n: "0 < n"
    by (cases "n = 0") (simp_all add: calculations_def)
  obtain s0 k where mat: "materials_db material = Some (s0, k)"
  proof (cases "materials_db material")
    case None
    with calc n sc have False
      by (simp add: calculations_def float_div_def bind_err_def materials_db_getitem_def Let_def)
    then show ?thesis ..
  next
    case (Some a)
    then show ?thesis using that by (cases a) simp
  qed
  from calc have "bind_err (yield_strength s0 k (um / 1000)) (\<lambda>ys.
      bind_err (calculate_astm um) (\<lambda>g.
        Inr \<lparr>r_intercepts = n, r_mean_intercept_um = um, r_astm = g, r_d_mm = um / 1000,
             r_s0 = s0, r_k = k, r_yield_strength = ys\<rparr>)) = Inr rep"
    unfolding calculations_ok [OF n sc mat um_def] .
  then obtain ys g where "yield_strength s0 k (um / 1000) = Inr ys"
    and "calculate_astm um = Inr g"
    and "rep = \<lparr>r_intercepts = n, r_mean_intercept_um = um, r_astm = g, r_d_mm = um / 1000,
             r_s0 = s0, r_k = k, r_yield_strength = ys\<rparr>"
    by (auto simp: bind_err_def split: sum.splits)
  then show ?thesis
    using sc n mat by (simp add: n_def [symmetric] c_def [symmetric] um_def)
qed

subsection \<open>Numeric bounds for the 50 micron scenario\<close>

lemma sqrt_20_bounds: "4.4718 < sqrt 20 \<and> sqrt 20 < 4.47217"
proof
  show "4.4718 < sqrt 20" by (rule real_less_rsqrt) (simp add: power2_eq_square)
  show "sqrt 20 < 4.47217" by (rule real_less_lsqrt) (simp_all add: power2_eq_square)
qed

lemma powr_neg_half_20: "(0.05::real) powr (- 0.5) = sqrt 20"
proof -
  have "(0.05::real) powr (- 0.5) = inverse ((1 / 20) powr (1 / 2))"
    using powr_minus [of "1 / 20 :: real" "1 / 2"] by simp
  also have "\<dots> = inverse (sqrt (1 / 20))" by (simp add: powr_half_sqrt)
  also have "\<dots> = sqrt 20" by (simp add: real_sqrt_divide real_sqrt_inverse)
  finally show ?thesis .
qed

lemma log_10_2_bounds: "59 / 196 < log 10 2 \<and> log 10 2 < 28 / 93"
proof
  have pw: "log 10 ((2::real) ^ n) = real n * log 10 2" for n
    by (rule log_nat_power) simp
  have "real 59 < log (real 10) (real ((2::nat) ^ 196))"
    by (rule less_log_of_power) simp_all
  also have "log (real 10) (real ((2::nat) ^ 196)) = log 10 ((2::real) ^ 196)" by simp
  also have "\<dots> = real 196 * log 10 2" by (rule pw)
  finally show "59 / 196 < log 10 2" by simp
  have "real 93 * log 10 2 = log 10 ((2::real) ^ 93)" by (rule pw [symmetric])
  also have "\<dots> = log (real 10) (real ((2::nat) ^ 93))" by simp
  also have "\<dots> < real 28"
    by (rule log_of_power_less) simp_all
  finally show "log 10 2 < 28 / 93" by simp
qed

lemma log_10_twentieth: "log 10 0.05 = - 1 - log 10 2"
proof -
  have m: "log 10 (10 * 2) = log 10 10 + log 10 (2::real)"
    by (rule log_mult_pos) simp_all
  have "log 10 (0.05::real) = log 10 (1 / 20)" by simp
  also have "\<dots> = - log 10 20" by (simp add: log_divide)
  also have "log 10 (20::real) = log 10 (10 * 2)" by simp
  finally show ?thesis unfolding m by simp
qed

lemma steel_yield_50: "\<bar>70 + 23 * (0.05::real) powr (- 0.5) - 172.85\<bar> < 0.01"
  unfolding powr_neg_half_20 using sqrt_20_bounds by simp

lemma steel_astm_50: "\<bar>- 6.643856 * log 10 0.05 - 3.288 - 5.35\<bar> < 0.01"
proof -
  define L :: real where "L = log 10 2"
  have lo: "59 / 196 < L" and hi: "L < 28 / 93"
    using log_10_2_bounds by (simp_all add: L_def)
  have "- 6.643856 * (- 1 - L) - 3.288 - 5.35 = 6.643856 * L - 1.994144"
    by (simp add: field_simps)
  moreover have "- 0.01 < 6.643856 * L - 1.994144" using lo by simp
  moreover have "6.643856 * L - 1.994144 < 0.01" using hi by simp
  ultimately show ?thesis
    unfolding log_10_twentieth L_def [symmetric] by (simp only: abs_less_iff) simp
qed

subsection \<open>Placement of the circles\<close>

lemma centre_in_bounds: "\<not> out_of_bounds h w (int w div 2, int h div 2, int (radius h w))"
proof -
  have "radius h w \<le> w div 2" "radius h w \<le> h div 2"
    using radius_le_half [of h w] by (simp_all add: min_def split: if_splits) 
  then have "int (radius h w) \<le> int w div 2" "int (radius h w) \<le> int h div 2"
    by (simp_all add: zdiv_int) 
  then show ?thesis by (simp add: out_of_bounds_def) linarith
qed

lemma place_circle_in_bounds: "\<not> out_of_bounds h w (place_circle h w d)"
  by (simp add: place_circle_def centre_in_bounds)

lemma place_circle_radius: "snd (snd (place_circle h w d)) = int (radius h w)"
  by (simp add: place_circle_def jittered_def)

lemma drawn_nth:
  assumes "i < 5"
  shows "drawn (sample_circles img rnd) ! i = place_circle (img_h img) (img_w img) (rnd i)"
  using assms by (simp add: sample_circles_eq num_circles_def)

lemma jitter_plus_radius:
  assumes "min h w \<le> m"
  shows "jitter m + radius h w \<le> m div 2"
proof -
  define n where "n = min h w"
  define A where "A = round53 (n * 3152519739159347)"
  define B where "B = round53 (m * 3602879701896397)"
  define f where "f = A div 2 ^ 53"
  define j where "j = B div 2 ^ 55"
  have a: "A * 2 ^ 52 \<le> (n * 3152519739159347) * (2 ^ 52 + 1)"
    unfolding A_def by (rule round53_upper)
  have b: "B * 2 ^ 52 \<le> (m * 3602879701896397) * (2 ^ 52 + 1)"
    unfolding B_def by (rule round53_upper)
  have f: "f * 2 ^ 53 \<le> A" by (simp add: f_def)
  have j: "j * 2 ^ 55 \<le> B" by (simp add: j_def)
  have "2 * (j + f) \<le> m"
    using a b f j assms unfolding n_def [symmetric] by simp
  then have "j + f \<le> m div 2" by arith
  then show ?thesis
    by (simp add: jitter_def radius_def int_float_mul_def Let_def A_def B_def n_def f_def j_def)
qed

text \<open>
  With draws from the range of \<open>randint\<close> the jittered circle always fits, so the
  recentring branch is never taken.
\<close>

lemma randint_never_out_of_bounds:
  assumes "randint_ok h w d"
  shows "\<not> out_of_bounds h w (jittered h w d)"
proof -
  have "jitter w + radius h w \<le> w div 2" "jitter h + radius h w \<le> h div 2"
    by (rule jitter_plus_radius, simp)+
  then have "int (jitter w) + int (radius h w) \<le> int w div 2"
    "int (jitter h) + int (radius h w) \<le> int h div 2"
    by (simp_all add: zdiv_int flip: of_nat_add)
  then show ?thesis
    using assms by (simp add: out_of_bounds_def jittered_def randint_ok_def) linarith
qed

lemma total_circumference_sample_circle:
  "total_circumference_px (sample_circle img rnd i st) =
     total_circumference_px st + 2 * pi * real (radius (img_h img) (img_w img))"
  by (simp add: sample_circle_def Let_def)

text \<open>
  With fewer than \<open>2^32\<close> intercepts and a scale below \<open>2^1024\<close> (every finite float
  is), the mean intercept of a circle of radius at least 1 is far above the underflow
  threshold.
\<close>

lemma mean_intercept_no_underflow:
  assumes "0 < n" and "n < 2 ^ 32" and "0 < scale_factor" and "scale_factor < 2 ^ 1024"
    and "0 < r"
  shows "fl (5 * (2 * pi * real r) / real n / scale_factor / 1000) \<noteq> 0"
proof -
  define c where "c = 5 * (2 * pi * real r)"
  have "1 \<le> real r" using assms(5) by simp
  with pi_ge_two have "2 * 1 \<le> pi * real r" by (intro mult_mono) simp_all
  then have c: "20 \<le> c" by (simp add: c_def)
  have n: "real n < 2 ^ 32" using assms(2)
    by (metis of_nat_less_iff of_nat_numeral of_nat_power)
  define D where "D = real n * scale_factor"
  have "real n * scale_factor < 2 ^ 32 * 2 ^ 1024"
    using n assms(1,3,4) by (intro mult_strict_mono) simp_all
  then have D: "D < 2 ^ 32 * 2 ^ 1024" by (simp only: D_def)
  have dpos: "0 < D" using assms(1,3) by (simp add: D_def)
  have "(2::real) powr (- 1075) < 20 / (2 ^ 32 * 2 ^ 1024 * 1000)"
    by (simp add: powr_neg_numeral)
  also have "\<dots> < 20 / (D * 1000)"
    using D dpos by (intro divide_strict_left_mono) simp_all
  also have "\<dots> \<le> c / (D * 1000)"
    using c dpos by (intro divide_right_mono) simp_all
  also have "\<dots> = c / real n / scale_factor / 1000" by (simp add: D_def)
  finally have "0 < fl (c / real n / scale_factor / 1000)" by (rule fl_pos)
  then show ?thesis unfolding c_def by simp
qed

lemma calculations_total:
  assumes "0 < n" and "0 < scale_factor" and "materials_db material = Some (s0, k)"
    and "0 \<le> c" and nz: "c = 0 \<or> fl (c / real n / scale_factor / 1000) \<noteq> 0"
  shows "\<exists>rep. calculations n c scale_factor material = Inr rep \<and>
           r_intercepts rep = n \<and> r_mean_intercept_um rep = c / real n / scale_factor"
proof (cases "c = 0")
  case True
  have y: "yield_strength s0 k (0 / 1000) = Inr 0"
    by (simp add: yield_strength_def float_pow_def bind_err_def except_zero_division_def)
  have g: "calculate_astm 0 = Inr 0" by (simp add: calculate_astm_def)
  have um: "(0::real) = c / real n / scale_factor" using True by simp
  show ?thesis
    unfolding calculations_ok [OF assms(1-3) um] y g
    by (simp add: bind_err_def True)
next
  case False
  with assms(4) have "0 < c" by simp
  moreover from False nz have "fl (c / real n / scale_factor / 1000) \<noteq> 0" by simp
  ultimately show ?thesis
    using calculations_pos [OF assms(1-3) _ refl] by simp
qed



lemma grains_100_dims: "img_h grains_100 = 100" "img_w grains_100 = 100"
  by (simp_all add: grains_100_def)

lemma grains_340_dims: "img_h grains_340 = 340" "img_w grains_340 = 340"
  by (simp_all add: grains_340_def)

lemma draws_in_range: "i < 5 \<Longrightarrow> randint_ok 100 100 (draws i)"
  by (simp add: randint_ok_def jitter_100 draws_def)

subsection \<open>Calibration\<close>

lemma dist_original_px_eq:
  "dist_original_px p1 p2 ratio =
     Inr (if ratio = 0 then dist_canvas_px p1 p2 else fl (dist_canvas_px p1 p2 / ratio))"
  by (simp add: dist_original_px_def fdiv_def except_zero_division_def)

lemma sqrt_60_80: "sqrt (of_int ((fst (60, 80) - fst (0, 0))\<^sup>2 + (snd (60, 80) - snd (0, 0))\<^sup>2)) = 100"
proof -
  have "sqrt ((100::real)\<^sup>2) = 100" by (simp del: power2_eq_square)
  then show ?thesis by simp
qed



subsection \<open>A run with grain diameter zero\<close>

text \<open>
  On a 2 x 2 image the radius is 0, so the total circumference and the grain diameter are
  0: the power raises, the \<open>except\<close> branch sets the yield strength to 0, and
  \<open>calculate_astm\<close> returns 0.
\<close>

lemma tiny_2_run:
  "analyze_grains (Some tiny_2) 1 ''Steel (Low Carbon)'' rnd =
     Inr \<lparr>r_intercepts = 5, r_mean_intercept_um = 0, r_astm = 0, r_d_mm = 0,
          r_s0 = 70, r_k = 23, r_yield_strength = 0\<rparr>"
proof -
  have s: "total_intercepts (sample_circles tiny_2 rnd) = 5"
      "total_circumference_px (sample_circles tiny_2 rnd) = 0"
    by (simp_all add: sample_circles_eq tiny_2_def upt_num_circles radius_2)
  have um: "(0::real) = 0 / real 5 / 1" by simp
  have y: "yield_strength 70 23 (0 / 1000) = Inr 0"
    by (simp add: yield_strength_def float_pow_def bind_err_def except_zero_division_def)
  have g: "calculate_astm 0 = Inr 0" by (simp add: calculate_astm_def)
  have "calculations 5 0 1 ''Steel (Low Carbon)'' =
      bind_err (yield_strength 70 23 (0 / 1000)) (\<lambda>ys.
      bind_err (calculate_astm 0) (\<lambda>g.
        Inr \<lparr>r_intercepts = 5, r_mean_intercept_um = 0, r_astm = g, r_d_mm = 0 / 1000,
             r_s0 = 70, r_k = 23, r_yield_strength = ys\<rparr>))"
    by (rule calculations_ok [OF _ _ steel um]) simp_all
  then have "calculations 5 0 1 ''Steel (Low Carbon)'' =
     Inr \<lparr>r_intercepts = 5, r_mean_intercept_um = 0, r_astm = 0, r_d_mm = 0,
          r_s0 = 70, r_k = 23, r_yield_strength = 0\<rparr>"
    unfolding y g by (simp add: bind_err_def)
  then show ?thesis by (simp add: analyze_grains_def s)
qed

subsection \<open>The claims\<close>




text \<open>
  C5. For all constants \<open>s0\<close> and \<open>k\<close> the yield strength is \<open>s0 + k * d_mm ** -0.5\<close> when
  the grain diameter is positive; when it is zero the \<open>ZeroDivisionError\<close> of the power is
  caught and the yield strength is 0.
\<close>

theorem yield_strength_hall_petch:
  "(0 < d \<longrightarrow> yield_strength s0 k d = Inr (s0 + k * d powr (- 0.5))) \<and>
   yield_strength s0 k 0 = Inr 0"
  by (simp add: yield_strength_def float_pow_def bind_err_def except_zero_division_def)

theorem yield_strength_hall_petch_witness:
  "yield_strength 70 23 1 = Inr 93 \<and> yield_strength 70 23 0 = Inr 0"
  using yield_strength_hall_petch [of 1 70 23] by simp

text \<open>
  C2. A run that reaches the sampling loop (an image is loaded and the pixel scale is
  positive) and counts no intercept on the five circles ends with the failure
  "No boundaries found" and returns no report, whatever the material.
\<close>

theorem no_boundaries_found:
  assumes "0 < scale_factor" and "total_intercepts (sample_circles img rnd) = 0"
  shows "analyze_grains (Some img) scale_factor material rnd = Inl NoBoundariesFound \<and>
         (\<forall>rep. analyze_grains (Some img) scale_factor material rnd \<noteq> Inr rep)"
  using assms by (simp add: analyze_grains_def calculations_def Let_def)

theorem no_boundaries_found_witness:
  "analyze_grains (Some blank_100) 1 ''Steel (Low Carbon)'' draws = Inl NoBoundariesFound"
  using no_boundaries_found [of 1 blank_100 draws "''Steel (Low Carbon)''"] blank_100_total
  by simp

text \<open>
  C8, as amended. In binary64, with a positive intercept count and a positive total
  circumference fixed, the mean lineal intercept is computed for every positive pixel scale,
  and a larger pixel scale never gives a larger mean lineal intercept. (A quotient beyond
  the largest float is \<open>inf\<close> in Python and a large real here; the order is the same.)
\<close>

theorem mean_intercept_non_increasing_in_scale:
  assumes "0 < n" and "0 < c" and "0 < p1" and "p1 \<le> p2"
  shows "\<exists>m1 m2. avg_grain_intercept_um_b64 n c p1 = Inr m1 \<and>
           avg_grain_intercept_um_b64 n c p2 = Inr m2 \<and> m2 \<le> m1"
proof -
  define a where "a = fl (c / real n)"
  have a: "0 \<le> a" unfolding a_def using assms(1,2) by (intro fl_nonneg) simp
  from assms have p2: "0 < p2" by simp
  have m1: "avg_grain_intercept_um_b64 n c p1 = Inr (fl (a / p1))"
    using assms(1,3) by (simp add: avg_grain_intercept_um_b64_def fdiv_def bind_err_def a_def)
  have m2: "avg_grain_intercept_um_b64 n c p2 = Inr (fl (a / p2))"
    using assms(1) p2 by (simp add: avg_grain_intercept_um_b64_def fdiv_def bind_err_def a_def)
  have "a / p2 \<le> a / p1" using a assms(3,4) by (simp add: frac_le)
  then have "fl (a / p2) \<le> fl (a / p1)" by (rule fl_mono)
  with m1 m2 show ?thesis by simp
qed

theorem mean_intercept_non_increasing_in_scale_witness:
  "\<exists>m1 m2. avg_grain_intercept_um_b64 35 (4835904713300691 / 2 ^ 42) 7 = Inr m1 \<and>
     avg_grain_intercept_um_b64 35 (4835904713300691 / 2 ^ 42) 14 = Inr m2 \<and> m2 \<le> m1"
  using mean_intercept_non_increasing_in_scale [of 35 "4835904713300691 / 2 ^ 42" 7 14]
  by simp

text \<open>
  C8 as stated fails: the decrease is not strict. For radius 35 and 35 intercepts, the
  pixel scales 7.0 and its successor \<open>7 + 2^-50\<close> both give the mean 4.487989505128275.
\<close>

theorem mean_intercept_strict_counterexample:
  "avg_grain_intercept_um_b64 35 (total_circumference_px_b64 35) 7
     = Inr (5053026965734599 / 2 ^ 50) \<and>
   avg_grain_intercept_um_b64 35 (total_circumference_px_b64 35) (7 + 1 / 2 ^ 50)
     = Inr (5053026965734599 / 2 ^ 50) \<and>
   (7::real) < 7 + 1 / 2 ^ 50"
proof -
  have 1: "fdiv (4835904713300691 / 2 ^ 42) (real 35) = Inr (8842797190035549 / 2 ^ 48)"
    using quotient_35 by (simp add: fdiv_def)
  have 2: "fdiv (8842797190035549 / 2 ^ 48) 7 = Inr (5053026965734599 / 2 ^ 50)"
    using quotient_7 by (simp add: fdiv_def)
  have 3: "fdiv (8842797190035549 / 2 ^ 48) (7 + 1 / 2 ^ 50) = Inr (5053026965734599 / 2 ^ 50)"
    using quotient_7_next by (simp add: fdiv_def)
  have "avg_grain_intercept_um_b64 35 (4835904713300691 / 2 ^ 42) p
      = fdiv (8842797190035549 / 2 ^ 48) p" for p
    unfolding avg_grain_intercept_um_b64_def 1 bind_err_def by (simp only: sum.case)
  then show ?thesis
    unfolding total_circumference_px_b64_35 by (simp only: 2 3) simp
qed

text \<open>
  C7, as amended. In binary64, on a platform whose \<open>log10\<close> is non-decreasing and whose
  \<open>pow\<close> with exponent \<open>-0.5\<close> is non-increasing on the positive floats, both
  computations succeed for positive grain diameters (in mm, the mean intercept in microns
  divided by \<open>1000.0\<close>), a larger diameter never gives a larger ASTM grain number and,
  for a positive locking parameter \<open>k\<close>, never a larger Hall-Petch yield strength.
\<close>

theorem metrics_non_increasing:
  assumes log_mono: "\<forall>x y. 0 < x \<and> x \<le> y \<longrightarrow> libm_log10 x \<le> libm_log10 y"
    and pow_antimono: "\<forall>x y. 0 < x \<and> x \<le> y \<longrightarrow> libm_pow y (- 0.5) \<le> libm_pow x (- 0.5)"
    and m: "0 < m1" "0 < m2"
    and d: "d1 = fl (m1 / 1000)" "d2 = fl (m2 / 1000)" "0 < d1" "d1 \<le> d2"
  shows "(\<exists>g1 g2. calculate_astm_b64 libm_log10 m1 = Inr g1 \<and>
            calculate_astm_b64 libm_log10 m2 = Inr g2 \<and> g2 \<le> g1) \<and>
         (0 < k \<longrightarrow>
            (\<exists>y1 y2. yield_strength_b64 libm_pow s0 k d1 = Inr y1 \<and>
               yield_strength_b64 libm_pow s0 k d2 = Inr y2 \<and> y2 \<le> y1))"
proof (intro conjI impI)
  from d have d2: "0 < d2" by simp
  have g1: "calculate_astm_b64 libm_log10 m1
      = Inr (fl (fl (- fl 6.643856 * libm_log10 d1) - fl 3.288))"
    using m(1) d(3) unfolding d(1)
    by (simp add: calculate_astm_b64_def log10_b64_def bind_err_def Let_def)
  have g2: "calculate_astm_b64 libm_log10 m2
      = Inr (fl (fl (- fl 6.643856 * libm_log10 d2) - fl 3.288))"
    using m(2) d2 unfolding d(2)
    by (simp add: calculate_astm_b64_def log10_b64_def bind_err_def Let_def)
  have c: "0 \<le> fl 6.643856" by (rule fl_nonneg) simp
  have "libm_log10 d1 \<le> libm_log10 d2" using log_mono d(3,4) by blast
  then have "- fl 6.643856 * libm_log10 d2 \<le> - fl 6.643856 * libm_log10 d1"
    using c by (simp add: mult_left_mono)
  then have "fl (- fl 6.643856 * libm_log10 d2) \<le> fl (- fl 6.643856 * libm_log10 d1)"
    by (rule fl_mono)
  then have "fl (fl (- fl 6.643856 * libm_log10 d2) - fl 3.288)
      \<le> fl (fl (- fl 6.643856 * libm_log10 d1) - fl 3.288)"
    by (intro fl_mono) simp
  with g1 g2 show "\<exists>g1 g2. calculate_astm_b64 libm_log10 m1 = Inr g1 \<and>
            calculate_astm_b64 libm_log10 m2 = Inr g2 \<and> g2 \<le> g1"
    by simp
next
  assume k: "0 < k"
  from d have d2: "0 < d2" by simp
  have y1: "yield_strength_b64 libm_pow s0 k d1 = Inr (fl (s0 + fl (k * libm_pow d1 (- 0.5))))"
    using d(3)
    by (simp add: yield_strength_b64_def pow_b64_def bind_err_def except_zero_division_def)
  have y2: "yield_strength_b64 libm_pow s0 k d2 = Inr (fl (s0 + fl (k * libm_pow d2 (- 0.5))))"
    using d2
    by (simp add: yield_strength_b64_def pow_b64_def bind_err_def except_zero_division_def)
  have "libm_pow d2 (- 0.5) \<le> libm_pow d1 (- 0.5)" using pow_antimono d(3,4) by blast
  then have "k * libm_pow d2 (- 0.5) \<le> k * libm_pow d1 (- 0.5)"
    using k by (simp add: mult_left_mono)
  then have "fl (k * libm_pow d2 (- 0.5)) \<le> fl (k * libm_pow d1 (- 0.5))"
    by (rule fl_mono)
  then have "fl (s0 + fl (k * libm_pow d2 (- 0.5))) \<le> fl (s0 + fl (k * libm_pow d1 (- 0.5)))"
    by (intro fl_mono) simp
  with y1 y2 show "\<exists>y1 y2. yield_strength_b64 libm_pow s0 k d1 = Inr y1 \<and>
               yield_strength_b64 libm_pow s0 k d2 = Inr y2 \<and> y2 \<le> y1"
    by simp
qed

theorem metrics_non_increasing_witness:
  "(\<exists>g1 g2. calculate_astm_b64 log10_cr 50 = Inr g1 \<and>
      calculate_astm_b64 log10_cr 100 = Inr g2 \<and> g2 \<le> g1) \<and>
   (\<exists>y1 y2. yield_strength_b64 pow_cr 70 23 (fl (50 / 1000)) = Inr y1 \<and>
      yield_strength_b64 pow_cr 70 23 (fl (100 / 1000)) = Inr y2 \<and> y2 \<le> y1)"
proof -
  have a: "\<forall>x y. 0 < x \<and> x \<le> y \<longrightarrow> log10_cr x \<le> log10_cr y"
    using log10_cr_mono by blast
  have b: "\<forall>x y. 0 < x \<and> x \<le> y \<longrightarrow> pow_cr y (- 0.5) \<le> pow_cr x (- 0.5)"
    using pow_cr_antimono by blast
  have "(2::real) powr (- 1075) < 50 / 1000" by (simp add: powr_neg_numeral)
  then have p: "0 < fl (50 / 1000)" by (rule fl_pos)
  have le: "fl (50 / 1000) \<le> fl (100 / 1000)" by (rule fl_mono) simp
  show ?thesis
    using metrics_non_increasing [where ?libm_log10.0 = log10_cr and libm_pow = pow_cr
        and ?m1.0 = 50 and ?m2.0 = 100 and ?d1.0 = "fl (50 / 1000)"
        and ?d2.0 = "fl (100 / 1000)" and k = 23 and ?s0.0 = 70] a b p le
    by simp
qed

text \<open>
  C7 as stated fails: the decrease is not strict. For steel the diameters \<open>2^120\<close> and
  \<open>2^122\<close>, whose powers \<open>2^-60\<close> and \<open>2^-61\<close> are exact, both give the yield strength
  70.0, because \<open>23 * 2^-60\<close> is less than half the spacing of floats at 70.
\<close>

theorem yield_strength_strict_counterexample:
  "yield_strength_b64 pow_cr 70 23 (2 ^ 120) = Inr 70 \<and>
   yield_strength_b64 pow_cr 70 23 (2 ^ 122) = Inr 70 \<and>
   (0::real) < 2 ^ 120 \<and> (2::real) ^ 120 < 2 ^ 122"
proof -
  have a: "yield_strength_b64 pow_cr 70 23 (2 ^ 120) = Inr (fl (70 + fl (23 * (1 / 2 ^ 60))))"
    unfolding yield_strength_b64_def pow_b64_def pow_cr_2_120
    by (simp add: bind_err_def except_zero_division_def)
  have b: "yield_strength_b64 pow_cr 70 23 (2 ^ 122) = Inr (fl (70 + fl (23 * (1 / 2 ^ 61))))"
    unfolding yield_strength_b64_def pow_b64_def pow_cr_2_122
    by (simp add: bind_err_def except_zero_division_def)
  show ?thesis
    unfolding a b fl_23_pow_60 fl_23_pow_61 fl_70_pow_60 fl_70_pow_61 by simp
qed

text \<open>
  C1. A run on "Steel (Low Carbon)" that reports a mean lineal intercept of 50 microns
  reports a grain diameter of 0.05 mm, the yield strength \<open>70 + 23 * 0.05 ** -0.5\<close>, which
  is within 0.01 of 172.85 MPa, and the grain number
  \<open>-6.643856 * log10(0.05) - 3.288\<close>, which is within 0.01 of 5.35.
\<close>

theorem steel_50_micron_run:
  assumes "analyze_grains (Some img) scale_factor ''Steel (Low Carbon)'' rnd = Inr rep"
    and "r_mean_intercept_um rep = 50"
  shows "r_d_mm rep = 0.05 \<and>
         r_yield_strength rep = 70 + 23 * 0.05 powr (- 0.5) \<and>
         \<bar>r_yield_strength rep - 172.85\<bar> < 0.01 \<and>
         r_astm rep = - 6.643856 * log 10 0.05 - 3.288 \<and>
         \<bar>r_astm rep - 5.35\<bar> < 0.01"
proof -
  note inv = analyze_grains_Inr [OF assms(1)]
  from inv assms(2) have d: "r_d_mm rep = 0.05" by simp
  from inv have "r_s0 rep = 70 \<and> r_k rep = 23" by (simp add: steel)
  with inv d have "yield_strength 70 23 0.05 = Inr (r_yield_strength rep)" by simp
  then have y: "r_yield_strength rep = 70 + 23 * 0.05 powr (- 0.5)"
    by (simp add: yield_strength_def float_pow_def bind_err_def except_zero_division_def)
  from inv assms(2) have "calculate_astm 50 = Inr (r_astm rep)" by simp
  then have g: "r_astm rep = - 6.643856 * log 10 0.05 - 3.288"
    using fl_twentieth_nonzero
    by (simp add: calculate_astm_def float_log10_def bind_err_def Let_def)
  show ?thesis
    using d steel_yield_50 steel_astm_50 unfolding y g by simp
qed

theorem steel_50_micron_run_witness:
  "\<exists>rep. analyze_grains (Some grains_100) (pi / 5) ''Steel (Low Carbon)'' draws = Inr rep \<and>
     r_mean_intercept_um rep = 50 \<and> r_d_mm rep = 0.05 \<and>
     \<bar>r_yield_strength rep - 172.85\<bar> < 0.01 \<and> \<bar>r_astm rep - 5.35\<bar> < 0.01"
proof -
  have um: "(50::real) = 350 * pi / real 35 / (pi / 5)" by simp
  have run: "analyze_grains (Some grains_100) (pi / 5) ''Steel (Low Carbon)'' draws =
      Inr \<lparr>r_intercepts = 35, r_mean_intercept_um = 50,
           r_astm = - 6.643856 * log 10 (50 / 1000) - 3.288,
           r_d_mm = 50 / 1000, r_s0 = 70, r_k = 23,
           r_yield_strength = 70 + 23 * (50 / 1000) powr (- 0.5)\<rparr>"
    using calculations_pos [of 35 "pi / 5" "''Steel (Low Carbon)''" 70 23 "350 * pi" 50, OF _ _ steel _ um fl_twentieth_nonzero]
    by (simp add: analyze_grains_def grains_100_sample not_le)
  show ?thesis
    using steel_50_micron_run [OF run] unfolding run by simp
qed

text \<open>
  C3. Every run samples exactly five circles. Each of them lies within the image:
  \<open>center_x - radius \<ge> 0\<close>, \<open>center_x + radius \<le> w\<close>, and the same for \<open>center_y\<close> and
  \<open>h\<close>. Each has the radius \<open>int(min_dim * 0.35)\<close>, and its centre is the jittered centre
  unless the jittered circle would leave the image, in which case it is \<open>(w // 2, h // 2)\<close>.
  This holds for every image size and for arbitrary draws.
\<close>

theorem sampling_circles_within_bounds:
  "length (drawn (sample_circles img rnd)) = 5 \<and>
   (\<forall>i<5. case drawn (sample_circles img rnd) ! i of (center_x, center_y, r) \<Rightarrow>
      0 \<le> center_x - r \<and> center_x + r \<le> int (img_w img) \<and>
      0 \<le> center_y - r \<and> center_y + r \<le> int (img_h img) \<and>
      r = int (radius (img_h img) (img_w img)) \<and>
      (center_x, center_y) =
        (if out_of_bounds (img_h img) (img_w img) (jittered (img_h img) (img_w img) (rnd i))
         then (int (img_w img) div 2, int (img_h img) div 2)
         else (int (img_w img) div 2 + fst (rnd i), int (img_h img) div 2 + snd (rnd i))))"
proof (intro conjI allI impI)
  show "length (drawn (sample_circles img rnd)) = 5"
    by (simp add: sample_circles_eq num_circles_def)
next
  fix i :: nat
  assume i: "i < 5"
  define c where "c = place_circle (img_h img) (img_w img) (rnd i)"
  obtain x y r where c: "c = (x, y, r)" by (cases c) auto
  have inb: "\<not> out_of_bounds (img_h img) (img_w img) (x, y, r)"
    using place_circle_in_bounds [of "img_h img" "img_w img" "rnd i"] by (simp add: c_def [symmetric] c)
  have r: "r = int (radius (img_h img) (img_w img))"
    using place_circle_radius [of "img_h img" "img_w img" "rnd i"] by (simp add: c_def [symmetric] c)
  have xy: "(x, y) =
        (if out_of_bounds (img_h img) (img_w img) (jittered (img_h img) (img_w img) (rnd i))
         then (int (img_w img) div 2, int (img_h img) div 2)
         else (int (img_w img) div 2 + fst (rnd i), int (img_h img) div 2 + snd (rnd i)))"
    using c by (simp add: c_def place_circle_def jittered_def split: if_splits)
  show "case drawn (sample_circles img rnd) ! i of (center_x, center_y, r) \<Rightarrow>
      0 \<le> center_x - r \<and> center_x + r \<le> int (img_w img) \<and>
      0 \<le> center_y - r \<and> center_y + r \<le> int (img_h img) \<and>
      r = int (radius (img_h img) (img_w img)) \<and>
      (center_x, center_y) =
        (if out_of_bounds (img_h img) (img_w img) (jittered (img_h img) (img_w img) (rnd i))
         then (int (img_w img) div 2, int (img_h img) div 2)
         else (int (img_w img) div 2 + fst (rnd i), int (img_h img) div 2 + snd (rnd i)))"
    unfolding drawn_nth [OF i] c_def [symmetric] c
    using inb r xy by (simp add: out_of_bounds_def not_less)
qed

theorem sampling_circles_within_bounds_witness:
  "drawn (sample_circles grains_100 draws) ! 0 = (42, 60, 35) \<and>
   (0::int) \<le> 42 - 35 \<and> (42::int) + 35 \<le> 100 \<and> (0::int) \<le> 60 - 35 \<and> (60::int) + 35 \<le> 100"
proof -
  have "drawn (sample_circles grains_100 draws) ! 0 = (42, 60, 35)"
    by (simp add: grains_100_sample place_circle_def jittered_def out_of_bounds_def
        radius_100 draws_def)
  then show ?thesis
    using sampling_circles_within_bounds [of grains_100 draws] by simp
qed

text \<open>
  C10. The radius is computed once, as \<open>int(min_dim * 0.35)\<close>: for a shorter side below
  \<open>2^32\<close> it is \<open>0.35 * min_dim\<close> rounded down, or one less when \<open>0.35 * min_dim\<close> is a
  whole number and the float product falls just below it (35 for 100, 118 for 340). Each
  iteration of the loop adds \<open>2 * pi * radius\<close> to the total circumference, whatever it
  counts and wherever the circle is placed, so the total after the loop is
  \<open>5 * 2 * pi * radius\<close>. A run with a positive finite scale, at least one and fewer than
  \<open>2^32\<close> intercepts and a material of the table returns a report whose mean intercept is
  that total divided by the intercept count and by the scale; any other mask and any other
  draws on an image of the same shape give the same mean intercept when they give the same
  intercept count.
\<close>

theorem total_circumference_fixed:
  "(min (img_h img) (img_w img) < 2 ^ 32 \<longrightarrow>
      100 * radius (img_h img) (img_w img) \<le> 35 * min (img_h img) (img_w img) \<and>
      35 * min (img_h img) (img_w img) \<le> 100 * radius (img_h img) (img_w img) + 100) \<and>
   total_circumference_px (sample_circle img rnd i st) =
     total_circumference_px st + 2 * pi * real (radius (img_h img) (img_w img)) \<and>
   total_circumference_px (sample_circles img rnd) =
     5 * (2 * pi * real (radius (img_h img) (img_w img))) \<and>
   (0 < scale_factor \<and> scale_factor < 2 ^ 1024 \<and>
    0 < total_intercepts (sample_circles img rnd) \<and>
    total_intercepts (sample_circles img rnd) < 2 ^ 32 \<and>
    material \<in> dom materials_db \<longrightarrow>
      (\<exists>rep. analyze_grains (Some img) scale_factor material rnd = Inr rep \<and>
         r_mean_intercept_um rep =
           5 * (2 * pi * real (radius (img_h img) (img_w img)))
             / real (total_intercepts (sample_circles img rnd)) / scale_factor \<and>
         (\<forall>img' rnd'.
            img_h img' = img_h img \<and> img_w img' = img_w img \<and>
            total_intercepts (sample_circles img' rnd') = total_intercepts (sample_circles img rnd)
            \<longrightarrow> (\<exists>rep'. analyze_grains (Some img') scale_factor material rnd' = Inr rep' \<and>
                   r_mean_intercept_um rep' = r_mean_intercept_um rep))))"
proof -
  have rad: "min (img_h img) (img_w img) < 2 ^ 32 \<longrightarrow>
      100 * radius (img_h img) (img_w img) \<le> 35 * min (img_h img) (img_w img) \<and>
      35 * min (img_h img) (img_w img) \<le> 100 * radius (img_h img) (img_w img) + 100"
    using radius_bounds [of "img_h img" "img_w img"] by blast
  have step: "total_circumference_px (sample_circle img rnd i st) =
     total_circumference_px st + 2 * pi * real (radius (img_h img) (img_w img))"
    by (rule total_circumference_sample_circle)
  have circ: "total_circumference_px (sample_circles im r) =
     5 * (2 * pi * real (radius (img_h im) (img_w im)))" for im r
    by (simp add: sample_circles_eq)
  have runs: "\<exists>rep. analyze_grains (Some img) scale_factor material rnd = Inr rep \<and>
         r_mean_intercept_um rep =
           5 * (2 * pi * real (radius (img_h img) (img_w img)))
             / real (total_intercepts (sample_circles img rnd)) / scale_factor \<and>
         (\<forall>img' rnd'.
            img_h img' = img_h img \<and> img_w img' = img_w img \<and>
            total_intercepts (sample_circles img' rnd') = total_intercepts (sample_circles img rnd)
            \<longrightarrow> (\<exists>rep'. analyze_grains (Some img') scale_factor material rnd' = Inr rep' \<and>
                   r_mean_intercept_um rep' = r_mean_intercept_um rep))"
    if a: "0 < scale_factor \<and> scale_factor < 2 ^ 1024 \<and>
      0 < total_intercepts (sample_circles img rnd) \<and>
      total_intercepts (sample_circles img rnd) < 2 ^ 32 \<and>
      material \<in> dom materials_db"
  proof -
    from a obtain s0 k where mat: "materials_db material = Some (s0, k)" by auto
    have sc: "0 < scale_factor" "scale_factor < 2 ^ 1024" using a by simp_all
    have run: "\<exists>rep. analyze_grains (Some im) scale_factor material r = Inr rep \<and>
        r_mean_intercept_um rep =
          5 * (2 * pi * real (radius (img_h im) (img_w im)))
            / real (total_intercepts (sample_circles im r)) / scale_factor"
      if n: "0 < total_intercepts (sample_circles im r)"
        "total_intercepts (sample_circles im r) < 2 ^ 32" for im r
    proof -
      have c0: "0 \<le> 5 * (2 * pi * real (radius (img_h im) (img_w im)))" by simp
      have nz: "5 * (2 * pi * real (radius (img_h im) (img_w im))) = 0 \<or>
          fl (5 * (2 * pi * real (radius (img_h im) (img_w im)))
                / real (total_intercepts (sample_circles im r)) / scale_factor / 1000) \<noteq> 0"
      proof (cases "radius (img_h im) (img_w im) = 0")
        case True
        then show ?thesis by simp
      next
        case False
        then have "0 < radius (img_h im) (img_w im)" by simp
        from mean_intercept_no_underflow [OF n sc this] show ?thesis by blast
      qed
      from calculations_total [OF n(1) sc(1) mat c0 nz] sc(1)
      show ?thesis by (auto simp add: analyze_grains_def Let_def circ)
    qed
    from run [of img rnd] a obtain rep where
      rep: "analyze_grains (Some img) scale_factor material rnd = Inr rep"
        "r_mean_intercept_um rep =
          5 * (2 * pi * real (radius (img_h img) (img_w img)))
            / real (total_intercepts (sample_circles img rnd)) / scale_factor"
      by auto
    have "\<exists>rep'. analyze_grains (Some img') scale_factor material rnd' = Inr rep' \<and>
            r_mean_intercept_um rep' = r_mean_intercept_um rep"
      if "img_h img' = img_h img \<and> img_w img' = img_w img \<and>
          total_intercepts (sample_circles img' rnd') = total_intercepts (sample_circles img rnd)"
      for img' rnd'
      using run [of img' rnd'] that a rep(2) by auto
    with rep show ?thesis by blast
  qed
  from rad step circ [of img rnd] runs show ?thesis by blast
qed

theorem total_circumference_fixed_witness:
  "radius 100 100 = 35 \<and> radius 340 340 = 118 \<and>
   total_circumference_px (sample_circles grains_340 draws) = 1180 * pi \<and>
   (\<exists>rep. analyze_grains (Some grains_340) 2 ''Steel (Low Carbon)'' draws = Inr rep \<and>
      r_mean_intercept_um rep = 1180 * pi / 35 / 2)"
proof -
  have "''Steel (Low Carbon)'' \<in> dom materials_db" using steel by blast
  then have "\<exists>rep. analyze_grains (Some grains_340) 2 ''Steel (Low Carbon)'' draws = Inr rep \<and>
      r_mean_intercept_um rep = 1180 * pi / 35 / 2"
    using total_circumference_fixed [of grains_340 draws 0
        "\<lparr>total_intercepts = 0, total_circumference_px = 0, drawn = []\<rparr>" 2
        "''Steel (Low Carbon)''"]
    by (simp add: grains_340_sample grains_340_dims radius_340) blast
  then show ?thesis by (simp add: grains_340_sample radius_100 radius_340)
qed

text \<open>
  C6. When the dialog returns a non-zero length, the calibration computes
  \<open>px_per_micron\<close> as the Euclidean canvas distance of the two points,
  \<open>sqrt((x2 - x1)^2 + (y2 - y1)^2)\<close>, divided by the scale ratio and then by the length,
  each operation in binary64, the canvas distance itself standing in for the first quotient
  when the ratio is zero; \<open>pixel_scale_var\<close> receives \<open>round(px_per_micron, 4)\<close>. For two
  points at distance 100, ratio 0.5 and length 10, both are exactly 20.
\<close>

theorem calibration_pixels_per_micron:
  "(l \<noteq> 0 \<longrightarrow>
      finalize_scale_measurement [p1, p2] ratio (Some l) =
        Inr (ScaleSet
          (fl ((if ratio = 0
                then fl (sqrt (of_int ((fst p2 - fst p1)\<^sup>2 + (snd p2 - snd p1)\<^sup>2)))
                else fl (fl (sqrt (of_int ((fst p2 - fst p1)\<^sup>2 + (snd p2 - snd p1)\<^sup>2))) / ratio))
               / l))
          (py_round
            (fl ((if ratio = 0
                  then fl (sqrt (of_int ((fst p2 - fst p1)\<^sup>2 + (snd p2 - snd p1)\<^sup>2)))
                  else fl (fl (sqrt (of_int ((fst p2 - fst p1)\<^sup>2 + (snd p2 - snd p1)\<^sup>2))) / ratio))
                 / l))
            4))) \<and>
   (sqrt (of_int ((fst p2 - fst p1)\<^sup>2 + (snd p2 - snd p1)\<^sup>2)) = 100 \<longrightarrow>
      finalize_scale_measurement [p1, p2] 0.5 (Some 10) = Inr (ScaleSet 20 20))"
proof (intro conjI impI)
  assume "l \<noteq> 0"
  then show "finalize_scale_measurement [p1, p2] ratio (Some l) =
        Inr (ScaleSet
          (fl ((if ratio = 0
                then fl (sqrt (of_int ((fst p2 - fst p1)\<^sup>2 + (snd p2 - snd p1)\<^sup>2)))
                else fl (fl (sqrt (of_int ((fst p2 - fst p1)\<^sup>2 + (snd p2 - snd p1)\<^sup>2))) / ratio))
               / l))
          (py_round
            (fl ((if ratio = 0
                  then fl (sqrt (of_int ((fst p2 - fst p1)\<^sup>2 + (snd p2 - snd p1)\<^sup>2)))
                  else fl (fl (sqrt (of_int ((fst p2 - fst p1)\<^sup>2 + (snd p2 - snd p1)\<^sup>2))) / ratio))
                 / l))
            4))"
    by (simp add: finalize_scale_measurement_def dist_original_px_eq dist_canvas_px_def
        bind_err_def fdiv_def)
next
  assume d: "sqrt (of_int ((fst p2 - fst p1)\<^sup>2 + (snd p2 - snd p1)\<^sup>2)) = 100"
  have r: "py_round 20 4 = 20" using py_round_int [of 20] by simp
  show "finalize_scale_measurement [p1, p2] 0.5 (Some 10) = Inr (ScaleSet 20 20)"
    using d
    by (simp add: finalize_scale_measurement_def dist_original_px_eq dist_canvas_px_def
        bind_err_def fdiv_def fl_numeral_examples r)
qed

theorem calibration_pixels_per_micron_witness:
  "finalize_scale_measurement [(0, 0), (60, 80)] 0.5 (Some 10) = Inr (ScaleSet 20 20) \<and>
   finalize_scale_measurement [(0, 0), (60, 80)] 0 (Some 10) = Inr (ScaleSet 10 10) \<and>
   finalize_scale_measurement [(0, 0), (1, 0)] 1 (Some 4000)
     = Inr (ScaleSet (4611686018427388 / 2 ^ 64) (5534023222112865 / 2 ^ 64))"
proof -
  have r10: "py_round 10 4 = 10" using py_round_int [of 10] by simp
  have a: "finalize_scale_measurement [(0, 0), (60, 80)] 0.5 (Some 10) = Inr (ScaleSet 20 20)"
    using calibration_pixels_per_micron [of 10 "(0, 0)" "(60, 80)" 0] sqrt_60_80 by simp
  have b: "finalize_scale_measurement [(0, 0), (60, 80)] 0 (Some 10) = Inr (ScaleSet 10 10)"
    using calibration_pixels_per_micron [of 10 "(0, 0)" "(60, 80)" 0] sqrt_60_80
    by (simp add: fl_numeral_examples r10)
  have c: "finalize_scale_measurement [(0, 0), (1, 0)] 1 (Some 4000)
     = Inr (ScaleSet (4611686018427388 / 2 ^ 64) (5534023222112865 / 2 ^ 64))"
    using calibration_pixels_per_micron [of 4000 "(0, 0)" "(1, 0)" 1] fl_4000 py_round_4000
    by (simp add: fl_numeral_examples)
  from a b c show ?thesis by simp
qed

text \<open>
  C9, as amended. For a material name that is not a key of \<open>materials_db\<close> no run returns
  a report, and a run that reaches the lookup (image loaded, positive pixel scale, at least
  one intercept) fails with \<open>KeyError\<close> on that name.
\<close>

theorem unknown_material:
  assumes "materials_db material = None"
  shows "(\<forall>rep. analyze_grains original_image scale_factor material rnd \<noteq> Inr rep) \<and>
         (0 < scale_factor \<and> 0 < total_intercepts (sample_circles img rnd) \<longrightarrow>
            analyze_grains (Some img) scale_factor material rnd = Inl (KeyError material))"
proof (intro conjI allI impI)
  fix rep
  show "analyze_grains original_image scale_factor material rnd \<noteq> Inr rep"
  proof (cases original_image)
    case None
    then show ?thesis by (simp add: analyze_grains_def)
  next
    case (Some im)
    show ?thesis
    proof
      assume "analyze_grains original_image scale_factor material rnd = Inr rep"
      then have "materials_db material = Some (r_s0 rep, r_k rep)"
        unfolding Some by (simp add: analyze_grains_Inr)
      with assms show False by simp
    qed
  qed
next
  assume "0 < scale_factor \<and> 0 < total_intercepts (sample_circles img rnd)"
  then show "analyze_grains (Some img) scale_factor material rnd = Inl (KeyError material)"
    using assms
    by (simp add: analyze_grains_def calculations_def float_div_def bind_err_def
        materials_db_getitem_def Let_def)
qed

theorem unknown_material_witness:
  "analyze_grains (Some grains_100) 1 ''Unobtainium'' draws = Inl (KeyError ''Unobtainium'')"
  using unknown_material [OF unobtainium, of "Some grains_100" 1 draws grains_100]
  by (simp add: grains_100_sample)

text \<open>
  C9 as stated fails: the lookup comes after the intercept check, so on an image without
  boundaries the run with an unknown material ends with "No boundaries found", not with
  \<open>KeyError\<close>.
\<close>

theorem unknown_material_counterexample:
  "materials_db ''Unobtainium'' = None \<and>
   analyze_grains (Some blank_100) 1 ''Unobtainium'' draws = Inl NoBoundariesFound \<and>
   analyze_grains (Some blank_100) 1 ''Unobtainium'' draws \<noteq> Inl (KeyError ''Unobtainium'')"
  by (simp add: unobtainium analyze_grains_def calculations_def blank_100_total)

end
